theory Spec2Isabelle
  imports Complex_Main "HOL-Library.Word" "HOL-Library.AList"
begin

section \<open>Values and errors\<close>

text \<open>
  The program is \<^verbatim>\<open>bot/main.py\<close>. Python integers are unbounded and are modelled by
  \<^typ>\<open>int\<close>; \<^verbatim>\<open>bytes\<close> and \<^verbatim>\<open>bytearray\<close> values are lists of 8-bit words; \<^verbatim>\<open>str\<close>
  values are \<^typ>\<open>string\<close>. Every exception the code can raise is a value of \<open>error\<close>,
  and a function that can raise returns \<open>error + 'a\<close> with \<open>Inl\<close> for the exception.
\<close>

type_synonym byte = "8 word"

datatype error =
    AssertionError string
  | OverflowError
  | ValueError
  | IndexError
  | KeyError string
  | ValueOutOfBounds
  | TypeError
  | RpcError string

section \<open>Python and library primitives used by the path codec\<close>

subsection \<open>Characters\<close>

definition hex_digit_val :: "char \<Rightarrow> nat option" where
  "hex_digit_val c =
     (let n = (of_char c :: nat) in
      if 48 \<le> n \<and> n \<le> 57 then Some (n - 48)
      else if 97 \<le> n \<and> n \<le> 102 then Some (n - 87)
      else if 65 \<le> n \<and> n \<le> 70 then Some (n - 55)
      else None)"

definition to_lower :: "char \<Rightarrow> char" where
  "to_lower c = (let n = (of_char c :: nat) in if 65 \<le> n \<and> n \<le> 90 then char_of (n + 32) else c)"

definition to_upper :: "char \<Rightarrow> char" where
  "to_upper c = (let n = (of_char c :: nat) in if 97 \<le> n \<and> n \<le> 122 then char_of (n - 32) else c)"

text \<open>ASCII whitespace: space, tab, newline, vertical tab, form feed, carriage return.\<close>

definition is_space :: "char \<Rightarrow> bool" where
  "is_space c = (let n = (of_char c :: nat) in n = 32 \<or> (9 \<le> n \<and> n \<le> 13))"

subsection \<open>\<^verbatim>\<open>int.to_bytes\<close>, \<^verbatim>\<open>int.from_bytes\<close> and \<^verbatim>\<open>bytes.fromhex\<close>\<close>

text \<open>
  \<open>be_bytes n v\<close> is the \<open>n\<close> low-order base-256 digits of \<open>v\<close>, most significant first.
  \<^verbatim>\<open>int.to_bytes(length, byteorder="big")\<close> (unsigned, the default) raises
  \<^verbatim>\<open>OverflowError\<close> for a negative value and for a value that does not fit \<open>length\<close> bytes.
\<close>

fun be_bytes :: "nat \<Rightarrow> int \<Rightarrow> byte list" where
  "be_bytes 0 v = []"
| "be_bytes (Suc n) v = be_bytes n (v div 256) @ [word_of_int (v mod 256)]"

definition int_to_bytes :: "int \<Rightarrow> nat \<Rightarrow> error + byte list" where
  "int_to_bytes v n =
     (if v < 0 then Inl OverflowError
      else if 256 ^ n \<le> v then Inl OverflowError
      else Inr (be_bytes n v))"

definition from_be :: "byte list \<Rightarrow> int" where
  "from_be bs = foldl (\<lambda>acc b. acc * 256 + uint b) 0 bs"

text \<open>
  \<^verbatim>\<open>bytes.fromhex\<close> reads two hexadecimal digits per byte, skips ASCII whitespace in
  front of a pair and raises \<^verbatim>\<open>ValueError\<close> on anything else.
\<close>

fun fromhex :: "string \<Rightarrow> error + byte list" where
  "fromhex [] = Inr []"
| "fromhex [c] = (if is_space c then Inr [] else Inl ValueError)"
| "fromhex (c # d # cs) =
     (if is_space c then fromhex (d # cs)
      else case (hex_digit_val c, hex_digit_val d) of
        (Some h, Some l) \<Rightarrow>
          (case fromhex cs of
             Inl e \<Rightarrow> Inl e
           | Inr bs \<Rightarrow> Inr (word_of_nat (16 * h + l) # bs))
      | _ \<Rightarrow> Inl ValueError)"

subsection \<open>\<^verbatim>\<open>Web3.to_checksum_address\<close>\<close>

text \<open>
  \<^verbatim>\<open>to_checksum\<close> (line 45) wraps the library's \<^verbatim>\<open>to_checksum_address\<close>. For a \<^verbatim>\<open>str\<close>
  argument the library accepts exactly 40 hexadecimal digits with an optional
  \<^verbatim>\<open>0x\<close>/\<^verbatim>\<open>0X\<close> prefix, lower-cases them, and returns \<^verbatim>\<open>0x\<close> followed by the digits in
  EIP-55 mixed case; any other string raises \<^verbatim>\<open>ValueError\<close>. Which letters EIP-55
  writes in upper case is decided by the Keccak-256 hash of the lower-case digits.
  The hash is not part of this repository and is taken as the parameter \<open>keccak\<close>:
  \<open>keccak ds i\<close> holds when digit \<open>i\<close> of \<open>ds\<close> is to be written in upper case.
\<close>

definition remove_0x_prefix :: "string \<Rightarrow> string" where
  "remove_0x_prefix s = (if take 2 s = ''0x'' \<or> take 2 s = ''0X'' then drop 2 s else s)"

definition is_hex_address :: "string \<Rightarrow> bool" where
  "is_hex_address s =
     (let d = remove_0x_prefix s in length d = 40 \<and> list_all (\<lambda>c. hex_digit_val c \<noteq> None) d)"

fun eip55 :: "(nat \<Rightarrow> bool) \<Rightarrow> nat \<Rightarrow> string \<Rightarrow> string" where
  "eip55 up i [] = []"
| "eip55 up i (c # cs) = (if up i then to_upper c else c) # eip55 up (Suc i) cs"

definition checksummed :: "(string \<Rightarrow> nat \<Rightarrow> bool) \<Rightarrow> string \<Rightarrow> string" where
  "checksummed keccak addr =
     (let d = map to_lower (remove_0x_prefix addr) in ''0x'' @ eip55 (keccak d) 0 d)"

definition to_checksum :: "(string \<Rightarrow> nat \<Rightarrow> bool) \<Rightarrow> string \<Rightarrow> error + string" where
  "to_checksum keccak addr =
     (if is_hex_address addr then Inr (checksummed keccak addr) else Inl ValueError)"

section \<open>Uniswap V3 helpers (lines 89--103)\<close>

text \<open>\<^verbatim>\<open>_to20\<close> (line 90): \<^verbatim>\<open>bytes.fromhex(to_checksum(addr)[2:])\<close>.\<close>

definition to20 :: "(string \<Rightarrow> nat \<Rightarrow> bool) \<Rightarrow> string \<Rightarrow> error + byte list" where
  "to20 keccak addr =
     (case to_checksum keccak addr of
        Inl e \<Rightarrow> Inl e
      | Inr s \<Rightarrow> fromhex (drop 2 s))"

text \<open>\<^verbatim>\<open>_fee3\<close> (line 93): \<^verbatim>\<open>int(fee).to_bytes(3, byteorder="big")\<close>.\<close>

definition fee3 :: "int \<Rightarrow> error + byte list" where
  "fee3 fee = int_to_bytes fee 3"

text \<open>
  \<^verbatim>\<open>encode_v3_path\<close> (lines 96--103). The loop over \<^verbatim>\<open>enumerate(fees)\<close> is
  \<open>encode_v3_loop\<close>, with the index \<open>i\<close> and the local buffer \<^verbatim>\<open>out\<close> as arguments.
  To speak about what has been written when an exception leaves the function, the
  exceptional result carries the content of \<^verbatim>\<open>out\<close> at that moment: \<open>Inl (e, None)\<close> is
  \<open>e\<close> raised before line 98 created the buffer, \<open>Inl (e, Some bs)\<close> is \<open>e\<close> raised
  when the buffer held \<open>bs\<close>. \<open>encode_v3_path\<close> is the function as a caller sees it.
  The \<^verbatim>\<open>assert\<close> of line 97 is modelled as executed (the interpreter runs without
  \<^verbatim>\<open>-O\<close>); the index check of the loop stands for Python's \<^verbatim>\<open>IndexError\<close>.
\<close>

fun encode_v3_loop ::
  "(string \<Rightarrow> nat \<Rightarrow> bool) \<Rightarrow> string list \<Rightarrow> nat \<Rightarrow> int list \<Rightarrow> byte list
     \<Rightarrow> (error \<times> byte list option) + byte list" where
  "encode_v3_loop keccak tokens i [] out = Inr out"
| "encode_v3_loop keccak tokens i (f # fs) out =
     (case fee3 f of
        Inl e \<Rightarrow> Inl (e, Some out)
      | Inr fb \<Rightarrow>
          (if length tokens \<le> i + 1 then Inl (IndexError, Some (out @ fb))
           else case to20 keccak (tokens ! (i + 1)) of
             Inl e \<Rightarrow> Inl (e, Some (out @ fb))
           | Inr ab \<Rightarrow> encode_v3_loop keccak tokens (i + 1) fs (out @ fb @ ab)))"

definition encode_v3_path_out ::
  "(string \<Rightarrow> nat \<Rightarrow> bool) \<Rightarrow> string list \<Rightarrow> int list
     \<Rightarrow> (error \<times> byte list option) + byte list" where
  "encode_v3_path_out keccak tokens fees =
     (if \<not> (2 \<le> length tokens \<and> int (length fees) = int (length tokens) - 1)
      then Inl (AssertionError ''bad path lens'', None)
      else case to20 keccak (tokens ! 0) of
        Inl e \<Rightarrow> Inl (e, Some [])
      | Inr a0 \<Rightarrow> encode_v3_loop keccak tokens 0 fees a0)"

definition encode_v3_path ::
  "(string \<Rightarrow> nat \<Rightarrow> bool) \<Rightarrow> string list \<Rightarrow> int list \<Rightarrow> error + byte list" where
  "encode_v3_path keccak tokens fees =
     (case encode_v3_path_out keccak tokens fees of
        Inl (e, _) \<Rightarrow> Inl e
      | Inr bs \<Rightarrow> Inr bs)"

section \<open>Reading an encoded path back by field width\<close>

text \<open>
  The consumer of a path has no delimiters to go by: it cuts the byte string into a
  20-byte address followed by hops of a 3-byte big-endian fee and a 20-byte address.
  \<open>split_v3_path\<close> is that reader; the number of hops is \<open>(length - 20) div 23\<close>.
  \<open>address_bytes\<close> is the 20-byte value an address string denotes (its hexadecimal
  digits read pairwise), \<open>hexlify\<close> is \<^verbatim>\<open>bytes.hex()\<close>, and \<open>v3_layout\<close> is the layout
  \<open>addr0 | fee0 | addr1 | fee1 | addr2 | ...\<close> written out.
\<close>

definition hex_val :: "char \<Rightarrow> nat" where
  "hex_val c = (case hex_digit_val c of Some h \<Rightarrow> h | None \<Rightarrow> 0)"

fun hex_bytes :: "string \<Rightarrow> byte list" where
  "hex_bytes (c # d # cs) = word_of_nat (16 * hex_val c + hex_val d) # hex_bytes cs"
| "hex_bytes cs = []"

definition address_bytes :: "string \<Rightarrow> byte list" where
  "address_bytes addr = hex_bytes (remove_0x_prefix addr)"

definition hex_char :: "nat \<Rightarrow> char" where
  "hex_char n = (if n < 10 then char_of (48 + n) else char_of (87 + n))"

definition hexlify :: "byte list \<Rightarrow> string" where
  "hexlify bs = concat (map (\<lambda>b. [hex_char (unat b div 16), hex_char (unat b mod 16)]) bs)"

fun split_hops :: "nat \<Rightarrow> byte list \<Rightarrow> (int \<times> byte list) list" where
  "split_hops 0 bs = []"
| "split_hops (Suc n) bs =
     (from_be (take 3 bs), take 20 (drop 3 bs)) # split_hops n (drop 23 bs)"

definition split_v3_path :: "byte list \<Rightarrow> byte list list \<times> int list" where
  "split_v3_path bs =
     (let hops = split_hops ((length bs - 20) div 23) (drop 20 bs)
      in (take 20 bs # map snd hops, map fst hops))"

definition v3_layout :: "string list \<Rightarrow> int list \<Rightarrow> byte list" where
  "v3_layout tokens fees =
     address_bytes (hd tokens) @
     concat (map (\<lambda>(f, t). be_bytes 3 f @ address_bytes t) (zip fees (tl tokens)))"

section \<open>The chain, seen from the program\<close>

text \<open>
  A transaction is a Python \<^verbatim>\<open>dict\<close>: an association list in insertion order, updated
  with \<^const>\<open>AList.update\<close> (an existing key keeps its place, a new key goes last).
\<close>

datatype val = VInt int | VStr string | VBytes "byte list"

type_synonym tx_dict = "(string \<times> val) list"

definition setdefault :: "string \<Rightarrow> val \<Rightarrow> tx_dict \<Rightarrow> tx_dict" where
  "setdefault k v tx = (if map_of tx k = None then AList.update k v tx else tx)"

record account =
  address :: string
  key :: "byte list"

record contract =
  contract_address :: string

record receipt =
  status :: int
  gasUsed :: int
  logs :: "byte list list"

record block =
  baseFeePerGas :: "int option"

text \<open>
  Ether amounts are written in the source as decimal literals (\<^verbatim>\<open>0.00001\<close>,
  \<^verbatim>\<open>0.0000005\<close>, \<^verbatim>\<open>"0.0000002"\<close>); the library's \<^verbatim>\<open>to_wei\<close> reads a number through its
  decimal text. \<open>Decimal m e\<close> is \<open>m * 10 ^ e\<close>; \<open>to_wei_ether\<close> multiplies by \<open>10 ^ 18\<close>,
  truncates, and raises \<^verbatim>\<open>ValueError\<close> outside \<open>0 .. 2 ^ 256 - 1\<close>.
\<close>

datatype decimal = Decimal int int

definition to_wei_ether :: "decimal \<Rightarrow> error + int" where
  "to_wei_ether d =
     (case d of Decimal m e \<Rightarrow>
        if m < 0 then Inl ValueError
        else if 0 \<le> 18 + e then
          (let w = m * 10 ^ nat (18 + e) in if 2 ^ 256 - 1 < w then Inl ValueError else Inr w)
        else
          (if (2 ^ 256 - 1) * 10 ^ nat (- (18 + e)) < m then Inl ValueError
           else Inr (m div 10 ^ nat (- (18 + e)))))"

text \<open>
  Everything the program does to the outside world is recorded, in order, in a trace of
  actions: every call to the RPC transport, to a contract binding or to the signer, and
  the entry into \<^verbatim>\<open>split_via_goldstem\<close>. Console output is not recorded.
\<close>

datatype action =
    Call_owner string
  | Call_quoteExactInput string "byte list" int
  | Build_runSimpleFlash string string int "byte list" string
  | Get_transaction_count string
  | Get_chain_id
  | Get_max_priority_fee
  | Get_block_latest
  | Get_gas_price
  | Estimate_gas tx_dict
  | Sign_transaction tx_dict "byte list"
  | Send_raw_transaction "byte list"
  | Wait_for_transaction_receipt "byte list"
  | Process_receipt receipt
  | Split_via_goldstem decimal

text \<open>
  The outside world answers each call with a value or an exception. An answer may depend
  on the arguments and on everything that has happened before (the trace up to the
  call), so nonces, fees, receipts and ownership can change during a run.
  \<open>owner_call\<close> is \<^verbatim>\<open>contract.functions.owner().call()\<close>; \<open>quoteExactInput_call\<close> is
  the first component of \<^verbatim>\<open>quoter.functions.quoteExactInput(path, amount).call()\<close>;
  \<open>runSimpleFlash_build\<close> is
  \<^verbatim>\<open>contract.functions.runSimpleFlash(asset, amount, params).build_transaction({"from": a})\<close>;
  \<open>sign_transaction\<close> yields \<^verbatim>\<open>signed.rawTransaction\<close>; \<open>process_receipt\<close> is
  \<^verbatim>\<open>contract.events.FlashCompleted().process_receipt(rcpt)\<close>, each decoded event given by
  its \<^verbatim>\<open>args\<close> dictionary.
\<close>

record web3 =
  owner_call :: "action list \<Rightarrow> string \<Rightarrow> error + string"
  quoteExactInput_call :: "action list \<Rightarrow> string \<Rightarrow> byte list \<Rightarrow> int \<Rightarrow> error + int"
  runSimpleFlash_build ::
    "action list \<Rightarrow> string \<Rightarrow> string \<Rightarrow> int \<Rightarrow> byte list \<Rightarrow> string \<Rightarrow> error + tx_dict"
  get_transaction_count :: "action list \<Rightarrow> string \<Rightarrow> error + int"
  chain_id :: "action list \<Rightarrow> error + int"
  max_priority_fee :: "action list \<Rightarrow> error + int"
  get_block_latest :: "action list \<Rightarrow> error + block"
  gas_price :: "action list \<Rightarrow> error + int"
  estimate_gas :: "action list \<Rightarrow> tx_dict \<Rightarrow> error + int"
  sign_transaction :: "action list \<Rightarrow> tx_dict \<Rightarrow> byte list \<Rightarrow> error + byte list"
  send_raw_transaction :: "action list \<Rightarrow> byte list \<Rightarrow> error + byte list"
  wait_for_transaction_receipt :: "action list \<Rightarrow> byte list \<Rightarrow> error + receipt"
  process_receipt :: "action list \<Rightarrow> receipt \<Rightarrow> error + (string \<times> int) list list"

text \<open>
  A statement sequence that talks to the outside world takes the trace so far and
  returns the extended trace with its result. \<open>and_then\<close> sequences two of them and
  stops at the first exception; \<open>try_except\<close> is \<^verbatim>\<open>try: ... except Exception: ...\<close>.
\<close>

type_synonym 'a io = "action list \<Rightarrow> action list \<times> (error + 'a)"

definition returns :: "'a \<Rightarrow> 'a io" where
  "returns x tr = (tr, Inr x)"

definition raises :: "error \<Rightarrow> 'a io" where
  "raises e tr = (tr, Inl e)"

definition lift :: "error + 'a \<Rightarrow> 'a io" where
  "lift r tr = (tr, r)"

definition call :: "action \<Rightarrow> (action list \<Rightarrow> error + 'a) \<Rightarrow> 'a io" where
  "call a reply tr = (tr @ [a], reply tr)"

definition and_then :: "'a io \<Rightarrow> ('a \<Rightarrow> 'b io) \<Rightarrow> 'b io" where
  "and_then m k tr = (case m tr of (tr', Inl e) \<Rightarrow> (tr', Inl e) | (tr', Inr x) \<Rightarrow> k x tr')"

definition try_except :: "'a io \<Rightarrow> (error \<Rightarrow> 'a io) \<Rightarrow> 'a io" where
  "try_except m h tr = (case m tr of (tr', Inl e) \<Rightarrow> h e tr' | (tr', Inr x) \<Rightarrow> (tr', Inr x))"

section \<open>Configuration (lines 6--20)\<close>

text \<open>
  The module-level settings read from the environment. \<^verbatim>\<open>os.getenv\<close> without a default
  gives \<^verbatim>\<open>None\<close> for an unset variable; \<open>falsy\<close> is Python's \<^verbatim>\<open>not s\<close> on such a value.
\<close>

record config =
  FLASH_EXECUTOR_ADDRESS :: "string option"
  FLASH_ASSET :: "string option"
  FLASH_AMOUNT_WEI :: int
  MIN_PROFIT_WEI :: int
  UNIV3_QUOTER :: string
  USDC :: string

definition falsy :: "string option \<Rightarrow> bool" where
  "falsy s = (s = None \<or> s = Some [])"

definition str_of :: "string option \<Rightarrow> string" where
  "str_of s = (case s of None \<Rightarrow> [] | Some x \<Rightarrow> x)"

definition WETH_default :: string where
  "WETH_default = ''0x82aF49447D8a07e3bd95BD0d56f35241523fBab1''"

definition USDC_default :: string where
  "USDC_default = ''0xaf88d065e77c8cC2239327C5EDb3A432268e5831''"

definition UNIV3_QUOTER_default :: string where
  "UNIV3_QUOTER_default = ''0x61fFE01658eEe6eCeC4dFAbFfC31aBa7b4D48c57''"

section \<open>Transaction submission (lines 54--87)\<close>

text \<open>
  \<^verbatim>\<open>suggest_fees\<close> (lines 54--66). \<^verbatim>\<open>w3.eth.max_priority_fee\<close> is a property: reading it
  is the RPC call and yields an integer. Line 59 then calls that integer, which raises
  \<^verbatim>\<open>TypeError\<close>; the \<^verbatim>\<open>except Exception\<close> clause swallows it as it swallows a failed
  read. So the tip is the fallback of line 62, \<open>2 * 10 ^ 11\<close> wei, whatever the
  transport answers. The default argument of \<^verbatim>\<open>latest.get\<close> is evaluated eagerly: the
  gas price is read also when the block has a base fee.
\<close>

definition suggest_fees :: "web3 \<Rightarrow> (int \<times> int) io" where
  "suggest_fees w3 =
     and_then
       (try_except
          (and_then (call Get_max_priority_fee (max_priority_fee w3)) (\<lambda>fee. raises TypeError))
          (\<lambda>e. lift (to_wei_ether (Decimal 2 (- 7)))))
       (\<lambda>max_priority.
     and_then (call Get_block_latest (get_block_latest w3)) (\<lambda>latest.
     and_then (call Get_gas_price (gas_price w3)) (\<lambda>gp.
       let base = (case baseFeePerGas latest of Some b \<Rightarrow> b | None \<Rightarrow> gp);
           max_fee = base * 2 + max_priority
       in returns (max_fee, max_priority))))"

definition send_tx :: "web3 \<Rightarrow> tx_dict \<Rightarrow> account \<Rightarrow> receipt io" where
  "send_tx w3 tx signer =
     and_then (call (Get_transaction_count (address signer))
                 (\<lambda>h. get_transaction_count w3 h (address signer))) (\<lambda>nonce.
     and_then (call Get_chain_id (chain_id w3)) (\<lambda>cid.
     and_then (suggest_fees w3) (\<lambda>(max_fee, max_prio).
       let tx1 = AList.update ''chainId'' (VInt cid) (AList.update ''nonce'' (VInt nonce) tx);
           tx2 = setdefault ''maxPriorityFeePerGas'' (VInt max_prio)
                   (setdefault ''maxFeePerGas'' (VInt max_fee) tx1);
           est = AList.update ''from'' (VStr (address signer)) tx2
       in
     and_then (call (Estimate_gas est) (\<lambda>h. estimate_gas w3 h est)) (\<lambda>gas.
       let tx3 = AList.update ''gas'' (VInt gas) tx2 in
     and_then (call (Sign_transaction tx3 (key signer))
                 (\<lambda>h. sign_transaction w3 h tx3 (key signer))) (\<lambda>raw.
     and_then (call (Send_raw_transaction raw) (\<lambda>h. send_raw_transaction w3 h raw)) (\<lambda>txh.
     call (Wait_for_transaction_receipt txh)
       (\<lambda>h. wait_for_transaction_receipt w3 h txh)))))))"

section \<open>Flash parameters (lines 105--130)\<close>

text \<open>
  \<^verbatim>\<open>eth_abi.encode(["bytes", "uint256"], [path, min_out])\<close>: the head holds the offset of
  the dynamic \<^verbatim>\<open>bytes\<close> value (64) and the integer, each as a 32-byte big-endian word; the
  tail holds the length of the path as a word, then the path padded with zero bytes to
  a multiple of 32. An integer outside \<open>0 .. 2 ^ 256 - 1\<close> raises \<^verbatim>\<open>ValueOutOfBounds\<close>.
\<close>

definition abi_encode_bytes_uint256 :: "byte list \<Rightarrow> int \<Rightarrow> error + byte list" where
  "abi_encode_bytes_uint256 path n =
     (if n < 0 \<or> 2 ^ 256 \<le> n then Inl ValueOutOfBounds
      else Inr (be_bytes 32 64 @ be_bytes 32 n @ be_bytes 32 (int (length path)) @ path @
                replicate ((32 - length path mod 32) mod 32) 0))"

text \<open>Lines 126--127: the repayment target and the enforced minimum output.\<close>

definition min_out :: "int \<Rightarrow> int \<Rightarrow> int \<Rightarrow> int" where
  "min_out amount_in_wei premium_estimate_wei safety_buffer_bps =
     (let repay_target = amount_in_wei + premium_estimate_wei
      in max (repay_target + ((repay_target * safety_buffer_bps) div 10000)) 1)"

definition encode_flash_params_for_roundtrip ::
  "(string \<Rightarrow> nat \<Rightarrow> bool) \<Rightarrow> config \<Rightarrow> web3 \<Rightarrow> string \<Rightarrow> string \<Rightarrow> int \<Rightarrow> int \<Rightarrow> int \<Rightarrow> int \<Rightarrow> int
     \<Rightarrow> (byte list \<times> int \<times> int) io" where
  "encode_flash_params_for_roundtrip keccak cfg w3 asset_in mid_token fee_in_to_mid
       fee_mid_to_out amount_in_wei premium_estimate_wei safety_buffer_bps =
     and_then (lift (to_checksum keccak asset_in)) (\<lambda>asset_in.
     and_then (lift (to_checksum keccak mid_token)) (\<lambda>mid_token.
     and_then (lift (encode_v3_path keccak [asset_in, mid_token, asset_in]
                       [fee_in_to_mid, fee_mid_to_out])) (\<lambda>path.
     and_then (lift (to_checksum keccak (UNIV3_QUOTER cfg))) (\<lambda>quoter.
     and_then (call (Call_quoteExactInput quoter path amount_in_wei)
                 (\<lambda>h. quoteExactInput_call w3 h quoter path amount_in_wei)) (\<lambda>quoted_out.
       let m = min_out amount_in_wei premium_estimate_wei safety_buffer_bps in
     and_then (lift (abi_encode_bytes_uint256 path m)) (\<lambda>params_bytes.
     returns (params_bytes, m, quoted_out)))))))"

section \<open>Core flows (lines 142--214)\<close>

definition split_via_goldstem :: "web3 \<Rightarrow> decimal \<Rightarrow> account \<Rightarrow> contract \<Rightarrow> unit io" where
  "split_via_goldstem w3 amount_eth root_account goldstem_contract =
     and_then (call (Split_via_goldstem amount_eth) (\<lambda>h. Inr ())) (\<lambda>_.
     and_then (lift (to_wei_ether amount_eth)) (\<lambda>v.
     and_then (send_tx w3
                 [(''to'', VStr (contract_address goldstem_contract)),
                  (''value'', VInt v),
                  (''from'', VStr (address root_account))]
                 root_account) (\<lambda>rcpt.
     returns ())))"

text \<open>
  \<^verbatim>\<open>flashloan_and_arb\<close> (lines 154--214) in two parts. \<open>flash_submit\<close> is lines 155--196:
  the configuration guard, the owner check, the quote and parameters, and the
  submission of \<^verbatim>\<open>runSimpleFlash\<close>; its result is \<open>None\<close> where the source returns early
  and the receipt where \<^verbatim>\<open>send_tx\<close> returned one. \<open>flash_settle\<close> is lines 198--214:
  \<open>decode_profit\<close> (the profit read from the receipt, 0 unless a \<^verbatim>\<open>FlashCompleted\<close>
  event decodes) and the routing decision.
\<close>

definition flash_submit ::
  "(string \<Rightarrow> nat \<Rightarrow> bool) \<Rightarrow> config \<Rightarrow> web3 \<Rightarrow> account \<Rightarrow> account \<Rightarrow> contract
     \<Rightarrow> receipt option io" where
  "flash_submit keccak cfg w3 seed_account root_account flash_executor_contract =
     (if falsy (FLASH_EXECUTOR_ADDRESS cfg) \<or> falsy (FLASH_ASSET cfg) \<or> FLASH_AMOUNT_WEI cfg \<le> 0
      then returns None
      else
        and_then
          (try_except
             (and_then (call (Call_owner (contract_address flash_executor_contract))
                          (\<lambda>h. owner_call w3 h (contract_address flash_executor_contract)))
                (\<lambda>owner. returns (owner = address root_account)))
             (\<lambda>e. returns False))
          (\<lambda>is_owner.
        if \<not> is_owner then returns None
        else
        and_then
          (try_except
             (and_then (lift (to_wei_ether (Decimal 5 (- 7)))) (\<lambda>premium.
              and_then (encode_flash_params_for_roundtrip keccak cfg w3
                          (str_of (FLASH_ASSET cfg)) (USDC cfg) 500 500
                          (FLASH_AMOUNT_WEI cfg) premium 30) (\<lambda>r.
              returns (Some r))))
             (\<lambda>e. returns None))
          (\<lambda>built.
        case built of
          None \<Rightarrow> returns None
        | Some (params_bytes, m, quote) \<Rightarrow>
            and_then (lift (to_checksum keccak (str_of (FLASH_ASSET cfg)))) (\<lambda>asset.
            and_then (call (Build_runSimpleFlash (contract_address flash_executor_contract)
                              asset (FLASH_AMOUNT_WEI cfg) params_bytes (address root_account))
                        (\<lambda>h. runSimpleFlash_build w3 h (contract_address flash_executor_contract)
                                asset (FLASH_AMOUNT_WEI cfg) params_bytes (address root_account)))
              (\<lambda>tx.
            and_then (send_tx w3 tx root_account) (\<lambda>rcpt.
            returns (Some rcpt)))))))"

definition decode_profit :: "web3 \<Rightarrow> receipt \<Rightarrow> int io" where
  "decode_profit w3 rcpt =
     try_except
       (and_then (call (Process_receipt rcpt) (\<lambda>h. process_receipt w3 h rcpt)) (\<lambda>evts.
        if evts \<noteq> [] then
          (case map_of (last evts) ''profitWei'' of
             None \<Rightarrow> raises (KeyError ''profitWei'')
           | Some p \<Rightarrow> returns p)
        else returns 0))
       (\<lambda>e. returns 0)"

definition flash_settle :: "config \<Rightarrow> web3 \<Rightarrow> account \<Rightarrow> contract \<Rightarrow> receipt \<Rightarrow> unit io" where
  "flash_settle cfg w3 root_account goldstem_contract rcpt =
     and_then (decode_profit w3 rcpt) (\<lambda>profit.
     if profit > MIN_PROFIT_WEI cfg
     then split_via_goldstem w3 (Decimal 1 (- 5)) root_account goldstem_contract
     else returns ())"

definition flashloan_and_arb ::
  "(string \<Rightarrow> nat \<Rightarrow> bool) \<Rightarrow> config \<Rightarrow> web3 \<Rightarrow> account \<Rightarrow> account \<Rightarrow> contract \<Rightarrow> contract
     \<Rightarrow> unit io" where
  "flashloan_and_arb keccak cfg w3 seed_account root_account flash_executor_contract
       goldstem_contract =
     and_then (flash_submit keccak cfg w3 seed_account root_account flash_executor_contract)
       (\<lambda>r. case r of
          None \<Rightarrow> returns ()
        | Some rcpt \<Rightarrow> flash_settle cfg w3 root_account goldstem_contract rcpt)"

section \<open>Concrete inputs\<close>

text \<open>
  A stand-in for the hash in closed instances: no digit is written in upper case. The
  theorems below hold for every \<open>keccak\<close>.
\<close>

definition no_upper :: "string \<Rightarrow> nat \<Rightarrow> bool" where
  "no_upper ds i = False"

text \<open>
  The minimum output as the specification words it: the repayment target plus the
  floor of the exact quotient \<open>repayTarget * bufferBps / 10000\<close>, and at least 1.
\<close>

definition minOut_spec :: "int \<Rightarrow> int \<Rightarrow> int \<Rightarrow> int" where
  "minOut_spec amountBorrowed estimatedPremium bufferBps =
     (let repayTarget = amountBorrowed + estimatedPremium
      in max (repayTarget + \<lfloor>(of_int (repayTarget * bufferBps) :: rat) / 10000\<rfloor>) 1)"

text \<open>
  Observations on a trace. A submission is a transaction handed to the signer or
  broadcast; the routing action is the entry into \<^verbatim>\<open>split_via_goldstem\<close>. \<open>emits P m\<close>
  says that \<open>m\<close> only appends to the trace, and only actions satisfying \<open>P\<close>.
  \<open>transfers sender recipient v\<close> holds of the actions of one plain transfer: every
  transaction estimated or signed goes from \<open>sender\<close> to \<open>recipient\<close> with value \<open>v\<close>,
  and no contract read, quote, decoding or further routing takes place.
\<close>

definition is_submission :: "action \<Rightarrow> bool" where
  "is_submission a = (case a of Sign_transaction tx k \<Rightarrow> True | Send_raw_transaction raw \<Rightarrow> True | _ \<Rightarrow> False)"

definition is_routing :: "action \<Rightarrow> bool" where
  "is_routing a = (case a of Split_via_goldstem amount \<Rightarrow> True | _ \<Rightarrow> False)"

definition routing_count :: "action list \<Rightarrow> nat" where
  "routing_count tr = length (filter is_routing tr)"

definition emits :: "(action \<Rightarrow> bool) \<Rightarrow> 'a io \<Rightarrow> bool" where
  "emits P m = (\<forall>tr. \<exists>sfx. fst (m tr) = tr @ sfx \<and> list_all P sfx)"

definition transfers :: "string \<Rightarrow> string \<Rightarrow> int \<Rightarrow> action \<Rightarrow> bool" where
  "transfers sender recipient v a =
     (case a of
        Estimate_gas tx \<Rightarrow>
          map_of tx ''from'' = Some (VStr sender) \<and> map_of tx ''to'' = Some (VStr recipient)
          \<and> map_of tx ''value'' = Some (VInt v)
      | Sign_transaction tx k \<Rightarrow>
          map_of tx ''from'' = Some (VStr sender) \<and> map_of tx ''to'' = Some (VStr recipient)
          \<and> map_of tx ''value'' = Some (VInt v)
      | Split_via_goldstem d \<Rightarrow> False
      | Call_owner c \<Rightarrow> False
      | Call_quoteExactInput q p n \<Rightarrow> False
      | Build_runSimpleFlash c x n bs s \<Rightarrow> False
      | Process_receipt r \<Rightarrow> False
      | _ \<Rightarrow> True)"

text \<open>
  A concrete run: two accounts, the executor and the treasury contract, the default
  token addresses, a borrowed amount of \<open>10 ^ 18\<close> wei, and a chain that answers every
  call. The owner read, the quote, the receipt status and the decoded events are
  parameters of \<open>demo_w3\<close>, the profit threshold of \<open>demo_cfg\<close>.
\<close>

definition demo_root :: account where
  "demo_root = \<lparr>address = ''0x1111111111111111111111111111111111111111'', key = [1, 2, 3]\<rparr>"

definition demo_seed :: account where
  "demo_seed = \<lparr>address = ''0x2222222222222222222222222222222222222222'', key = [4, 5, 6]\<rparr>"

definition demo_executor :: contract where
  "demo_executor = \<lparr>contract_address = ''0x3333333333333333333333333333333333333333''\<rparr>"

definition demo_goldstem :: contract where
  "demo_goldstem = \<lparr>contract_address = ''0x4444444444444444444444444444444444444444''\<rparr>"

definition demo_cfg :: "int \<Rightarrow> config" where
  "demo_cfg threshold =
     \<lparr>FLASH_EXECUTOR_ADDRESS = Some ''0x3333333333333333333333333333333333333333'',
      FLASH_ASSET = Some WETH_default,
      FLASH_AMOUNT_WEI = 1000000000000000000,
      MIN_PROFIT_WEI = threshold,
      UNIV3_QUOTER = UNIV3_QUOTER_default,
      USDC = USDC_default\<rparr>"

definition demo_rcpt :: "int \<Rightarrow> receipt" where
  "demo_rcpt st = \<lparr>status = st, gasUsed = 250000, logs = []\<rparr>"

definition demo_w3 :: "error + string \<Rightarrow> int \<Rightarrow> int \<Rightarrow> error + (string \<times> int) list list \<Rightarrow> web3" where
  "demo_w3 owner quoted st evts =
     \<lparr>owner_call = (\<lambda>h c. owner),
      quoteExactInput_call = (\<lambda>h q p a. Inr quoted),
      runSimpleFlash_build = (\<lambda>h c asset amount params sender.
         Inr [(''to'', VStr c), (''from'', VStr sender), (''value'', VInt 0), (''data'', VBytes params)]),
      get_transaction_count = (\<lambda>h a. Inr (int (length (filter is_submission h)) div 2)),
      chain_id = (\<lambda>h. Inr 42161),
      max_priority_fee = (\<lambda>h. Inr 1500000),
      get_block_latest = (\<lambda>h. Inr \<lparr>baseFeePerGas = Some 10000000\<rparr>),
      gas_price = (\<lambda>h. Inr 10000000),
      estimate_gas = (\<lambda>h tx. Inr 300000),
      sign_transaction = (\<lambda>h tx k. Inr (k @ [7])),
      send_raw_transaction = (\<lambda>h raw. Inr [8, 9]),
      wait_for_transaction_receipt = (\<lambda>h txh. Inr (demo_rcpt st)),
      process_receipt = (\<lambda>h r. evts)\<rparr>"


section \<open>Properties of the primitives\<close>

lemma hex_digit_val_less: "hex_digit_val c = Some h \<Longrightarrow> h < 16"
  by (auto simp: hex_digit_val_def Let_def split: if_splits)

lemma hex_digit_val_to_lower:
  "hex_digit_val c \<noteq> None \<Longrightarrow> hex_digit_val (to_lower c) = hex_digit_val c"
  by (auto simp: hex_digit_val_def to_lower_def Let_def split: if_splits)

lemma hex_digit_val_to_upper:
  "hex_digit_val c \<noteq> None \<Longrightarrow> hex_digit_val (to_upper c) = hex_digit_val c"
  by (auto simp: hex_digit_val_def to_upper_def Let_def split: if_splits)

lemma hex_digit_not_space: "hex_digit_val c \<noteq> None \<Longrightarrow> \<not> is_space c"
  by (auto simp: hex_digit_val_def is_space_def Let_def split: if_splits)

lemma hex_char_hex_digit_val: "hex_digit_val c = Some h \<Longrightarrow> hex_char h = to_lower c"
  by (rule of_char_eqI [where ?'a = nat]) (auto simp: hex_digit_val_def hex_char_def to_lower_def Let_def split: if_splits)

lemma length_hex_bytes: "length (hex_bytes cs) = length cs div 2"
  by (induction cs rule: hex_bytes.induct) auto

lemma fromhex_eip55:
  "list_all (\<lambda>c. hex_digit_val c \<noteq> None) cs \<Longrightarrow> even (length cs) \<Longrightarrow>
   fromhex (eip55 up i (map to_lower cs)) = Inr (hex_bytes cs)"
proof (induction cs arbitrary: i rule: hex_bytes.induct)
  case (1 c d cs)
  from "1.prems" have hc: "hex_digit_val c \<noteq> None" and hd: "hex_digit_val d \<noteq> None"
    and rest: "list_all (\<lambda>c. hex_digit_val c \<noteq> None) cs" "even (length cs)"
    by simp_all
  have c1: "hex_digit_val (if up i then to_upper (to_lower c) else to_lower c) = hex_digit_val c"
    using hc by (simp add: hex_digit_val_to_lower hex_digit_val_to_upper)
  have d1: "hex_digit_val (if up (Suc i) then to_upper (to_lower d) else to_lower d) = hex_digit_val d"
    using hd by (simp add: hex_digit_val_to_lower hex_digit_val_to_upper)
  have sp: "\<not> is_space (if up i then to_upper (to_lower c) else to_lower c)"
    using c1 hc hex_digit_not_space by metis
  obtain h l where h: "hex_digit_val c = Some h" and l: "hex_digit_val d = Some l"
    using hc hd by auto
  show ?case
    using "1.IH" [OF rest, of "Suc (Suc i)"] c1 d1 sp h l
    by (simp add: hex_val_def split del: if_split)
qed simp_all

lemma hexlify_hex_bytes:
  "list_all (\<lambda>c. hex_digit_val c \<noteq> None) cs \<Longrightarrow> even (length cs) \<Longrightarrow>
   hexlify (hex_bytes cs) = map to_lower cs"
proof (induction cs rule: hex_bytes.induct)
  case (1 c d cs)
  from "1.prems" obtain h l where h: "hex_digit_val c = Some h" and l: "hex_digit_val d = Some l"
    and rest: "list_all (\<lambda>c. hex_digit_val c \<noteq> None) cs" "even (length cs)"
    by auto
  have h16: "h < 16" and l16: "l < 16" using h l hex_digit_val_less by auto
  have "unat (word_of_nat (16 * h + l) :: byte) = (16 * h + l) mod 2 ^ LENGTH(8)"
    by (rule unat_of_nat)
  then have u: "unat (word_of_nat (16 * h + l) :: byte) = 16 * h + l"
    using h16 l16 by simp
  have "hexlify (hex_bytes cs) = map to_lower cs" using "1.IH" rest by simp
  then show ?case
    using u h l h16 l16 hex_char_hex_digit_val [OF h] hex_char_hex_digit_val [OF l]
    by (simp add: hexlify_def hex_val_def)
qed (simp_all add: hexlify_def)


lemma length_be_bytes: "length (be_bytes n v) = n"
  by (induction n arbitrary: v) auto

lemma from_be_snoc: "from_be (bs @ [b]) = from_be bs * 256 + uint b"
  by (simp add: from_be_def)

lemma from_be_be_bytes: "from_be (be_bytes n v) = v mod 256 ^ n"
proof (induction n arbitrary: v)
  case 0
  then show ?case by (simp add: from_be_def)
next
  case (Suc n)
  have "uint (word_of_int (v mod 256) :: byte) = v mod 256"
    by (simp add: uint_word_of_int)
  then have "from_be (be_bytes (Suc n) v) = (v div 256) mod 256 ^ n * 256 + v mod 256"
    by (simp add: from_be_snoc Suc.IH)
  also have "\<dots> = v mod 256 ^ Suc n"
    by (simp add: zmod_zmult2_eq)
  finally show ?case .
qed

lemma fee3_ok: "0 \<le> f \<Longrightarrow> f < 2 ^ 24 \<Longrightarrow> fee3 f = Inr (be_bytes 3 f)"
  by (simp add: fee3_def int_to_bytes_def)

lemma fee3_overflow: "f < 0 \<or> 2 ^ 24 \<le> f \<Longrightarrow> fee3 f = Inl OverflowError"
  by (auto simp: fee3_def int_to_bytes_def)

lemma to20_ok: "is_hex_address addr \<Longrightarrow> to20 keccak addr = Inr (address_bytes addr)"
  by (simp add: to20_def to_checksum_def checksummed_def is_hex_address_def Let_def
      address_bytes_def fromhex_eip55)

lemma to20_bad: "\<not> is_hex_address addr \<Longrightarrow> to20 keccak addr = Inl ValueError"
  by (simp add: to20_def to_checksum_def)

lemma length_address_bytes: "is_hex_address addr \<Longrightarrow> length (address_bytes addr) = 20"
  by (simp add: is_hex_address_def Let_def address_bytes_def length_hex_bytes)

lemma hexlify_address_bytes:
  "is_hex_address addr \<Longrightarrow> hexlify (address_bytes addr) = map to_lower (remove_0x_prefix addr)"
  by (simp add: is_hex_address_def Let_def address_bytes_def hexlify_hex_bytes)

lemma encode_v3_loop_ok:
  "\<forall>t\<in>set tokens. is_hex_address t \<Longrightarrow> \<forall>f\<in>set fs. 0 \<le> f \<and> f < 2 ^ 24 \<Longrightarrow>
   i + 1 + length fs = length tokens \<Longrightarrow>
   encode_v3_loop keccak tokens i fs out =
     Inr (out @ concat (map (\<lambda>(f, t). be_bytes 3 f @ address_bytes t) (zip fs (drop (i + 1) tokens))))"
proof (induction fs arbitrary: i out)
  case Nil
  then show ?case by simp
next
  case (Cons f fs)
  have lt: "i + 1 < length tokens" using Cons.prems(3) by simp
  then have mem: "tokens ! (i + 1) \<in> set tokens" by simp
  have dr: "drop (i + 1) tokens = tokens ! (i + 1) # drop (i + 1 + 1) tokens"
    using lt by (simp add: Cons_nth_drop_Suc)
  have f_ok: "fee3 f = Inr (be_bytes 3 f)" using Cons.prems(2) by (simp add: fee3_ok)
  have a_ok: "to20 keccak (tokens ! (i + 1)) = Inr (address_bytes (tokens ! (i + 1)))"
    using Cons.prems(1) mem by (simp add: to20_ok)
  have ih: "encode_v3_loop keccak tokens (i + 1) fs (out @ be_bytes 3 f @ address_bytes (tokens ! (i + 1))) =
     Inr ((out @ be_bytes 3 f @ address_bytes (tokens ! (i + 1))) @
       concat (map (\<lambda>(f, t). be_bytes 3 f @ address_bytes t) (zip fs (drop (i + 1 + 1) tokens))))"
    using Cons.prems by (intro Cons.IH) simp_all
  show ?case
    using lt f_ok a_ok ih by (subst dr) simp
qed

lemma encode_v3_loop_overflow:
  "\<forall>t\<in>set tokens. is_hex_address t \<Longrightarrow> \<exists>f\<in>set fs. f < 0 \<or> 2 ^ 24 \<le> f \<Longrightarrow>
   i + 1 + length fs = length tokens \<Longrightarrow>
   \<exists>w. encode_v3_loop keccak tokens i fs out = Inl (OverflowError, w)"
proof (induction fs arbitrary: i out)
  case Nil
  then show ?case by simp
next
  case (Cons f fs)
  show ?case
  proof (cases "f < 0 \<or> 2 ^ 24 \<le> f")
    case True
    then show ?thesis by (simp add: fee3_overflow)
  next
    case False
    then have f_ok: "fee3 f = Inr (be_bytes 3 f)" by (simp add: fee3_ok)
    have rest: "\<exists>f\<in>set fs. f < 0 \<or> 2 ^ 24 \<le> f" using Cons.prems(2) False by auto
    have lt: "i + 1 < length tokens" using Cons.prems(3) by simp
    then have a_ok: "to20 keccak (tokens ! (i + 1)) = Inr (address_bytes (tokens ! (i + 1)))"
      using Cons.prems(1) by (simp add: to20_ok)
    have "\<exists>w. encode_v3_loop keccak tokens (i + 1) fs (out @ be_bytes 3 f @ address_bytes (tokens ! (i + 1))) = Inl (OverflowError, w)"
      using Cons.prems(1,3) rest by (intro Cons.IH) simp_all
    then show ?thesis using f_ok a_ok lt by simp
  qed
qed

lemma encode_v3_loop_not_Inr:
  "\<exists>f\<in>set fs. f < 0 \<or> 2 ^ 24 \<le> f \<Longrightarrow> encode_v3_loop keccak tokens i fs out \<noteq> Inr bs"
proof (induction fs arbitrary: i out)
  case Nil
  then show ?case by simp
next
  case (Cons f fs)
  show ?case
  proof (cases "f < 0 \<or> 2 ^ 24 \<le> f")
    case True
    then show ?thesis by (simp add: fee3_overflow)
  next
    case False
    then have rest: "\<exists>f\<in>set fs. f < 0 \<or> 2 ^ 24 \<le> f" using Cons.prems by auto
    show ?thesis using Cons.IH [OF rest] by (simp split: sum.splits)
  qed
qed

lemma length_hops:
  "length fs = length ts \<Longrightarrow> \<forall>t\<in>set ts. length (g t) = 20 \<Longrightarrow>
   length (concat (map (\<lambda>(f, t). be_bytes 3 f @ g t) (zip fs ts))) = 23 * length fs"
proof (induction fs ts rule: list_induct2)
  case Nil
  then show ?case by simp
next
  case (Cons f fs t ts)
  then show ?case by (simp add: length_be_bytes)
qed

lemma split_hops_concat:
  "length fs = length ts \<Longrightarrow> \<forall>t\<in>set ts. length (g t) = 20 \<Longrightarrow> \<forall>f\<in>set fs. 0 \<le> f \<and> f < 2 ^ 24 \<Longrightarrow>
   split_hops (length fs) (concat (map (\<lambda>(f, t). be_bytes 3 f @ g t) (zip fs ts))) = zip fs (map g ts)"
proof (induction fs ts rule: list_induct2)
  case Nil
  then show ?case by simp
next
  case (Cons f fs t ts)
  have l3: "length (be_bytes 3 f) = 3" by (rule length_be_bytes)
  have l20: "length (g t) = 20" using Cons.prems by simp
  have fb: "from_be (be_bytes 3 f) = f"
    using Cons.prems(2) by (simp add: from_be_be_bytes)
  have ih: "split_hops (length fs) (concat (map (\<lambda>(f, t). be_bytes 3 f @ g t) (zip fs ts))) = zip fs (map g ts)"
    using Cons by simp
  show ?case using l3 l20 fb ih by simp
qed

lemma is_hex_address_WETH_default: "is_hex_address WETH_default"
  by (simp add: WETH_default_def is_hex_address_def remove_0x_prefix_def hex_digit_val_def)

lemma is_hex_address_USDC_default: "is_hex_address USDC_default"
  by (simp add: USDC_default_def is_hex_address_def remove_0x_prefix_def hex_digit_val_def)

section \<open>Properties of the flows\<close>

lemma floor_div_10000: "\<lfloor>(of_int x :: rat) / 10000\<rfloor> = x div 10000"
  using floor_divide_of_int_eq [of x 10000, where ?'a = rat] by simp

lemma min_out_eq_spec: "min_out a p b = minOut_spec a p b"
  by (simp only: min_out_def minOut_spec_def Let_def floor_div_10000)

lemma to_checksum_ok: "is_hex_address a \<Longrightarrow> to_checksum keccak a = Inr (checksummed keccak a)"
  by (simp add: to_checksum_def)

lemma length_eip55: "length (eip55 up i cs) = length cs"
  by (induction cs arbitrary: i) auto

lemma hex_eip55:
  "list_all (\<lambda>c. hex_digit_val c \<noteq> None) cs \<Longrightarrow>
   list_all (\<lambda>c. hex_digit_val c \<noteq> None) (eip55 up i (map to_lower cs))"
  by (induction cs arbitrary: i) (auto simp: hex_digit_val_to_lower hex_digit_val_to_upper)

lemma hex_bytes_eip55:
  "list_all (\<lambda>c. hex_digit_val c \<noteq> None) cs \<Longrightarrow>
   hex_bytes (eip55 up i (map to_lower cs)) = hex_bytes cs"
proof (induction cs arbitrary: i rule: hex_bytes.induct)
  case (1 c d cs)
  then show ?case
    by (simp add: hex_val_def hex_digit_val_to_lower hex_digit_val_to_upper)
qed simp_all

lemma remove_0x_prefix_0x: "remove_0x_prefix (CHR ''0'' # CHR ''x'' # s) = s"
  by (simp add: remove_0x_prefix_def)

lemma is_hex_address_checksummed:
  assumes "is_hex_address a"
  shows "is_hex_address (checksummed keccak a)"
proof -
  let ?d = "remove_0x_prefix a"
  have len: "length ?d = 40" and hex: "list_all (\<lambda>c. hex_digit_val c \<noteq> None) ?d"
    using assms by (simp_all add: is_hex_address_def Let_def)
  have "list_all (\<lambda>c. hex_digit_val c \<noteq> None) (eip55 (keccak (map to_lower ?d)) 0 (map to_lower ?d))"
    using hex by (rule hex_eip55)
  then show ?thesis
    using len by (simp add: is_hex_address_def checksummed_def Let_def remove_0x_prefix_0x length_eip55)
qed

lemma address_bytes_checksummed:
  "is_hex_address a \<Longrightarrow> address_bytes (checksummed keccak a) = address_bytes a"
  by (simp add: is_hex_address_def checksummed_def Let_def address_bytes_def
      remove_0x_prefix_0x hex_bytes_eip55)

lemma encode_v3_path_layout:
  assumes lens: "2 \<le> length tokens" "length fees = length tokens - 1"
    and toks: "\<forall>t\<in>set tokens. is_hex_address t"
    and fs: "\<forall>f\<in>set fees. 0 \<le> f \<and> f < 2 ^ 24"
  shows "encode_v3_path keccak tokens fees = Inr (v3_layout tokens fees)"
proof -
  obtain t0 ts where tk: "tokens = t0 # ts" using lens(1) by (cases tokens) auto
  have len_ts: "length fees = length ts" using lens(2) tk by simp
  have t0: "is_hex_address t0" using toks tk by auto
  have loop: "encode_v3_loop keccak tokens 0 fees (address_bytes t0) =
      Inr (address_bytes t0 @ concat (map (\<lambda>(f, t). be_bytes 3 f @ address_bytes t) (zip fees (drop (0 + 1) tokens))))"
    using toks fs len_ts tk by (intro encode_v3_loop_ok) simp_all
  show ?thesis
    using lens len_ts loop t0
    by (simp add: encode_v3_path_def encode_v3_path_out_def tk to20_ok v3_layout_def)
qed

lemma roundtrip_path:
  assumes a: "is_hex_address asset_in" and m: "is_hex_address mid_token"
    and f1: "0 \<le> f1 \<and> f1 < 2 ^ 24" and f2: "0 \<le> f2 \<and> f2 < 2 ^ 24"
  shows "encode_v3_path keccak [checksummed keccak asset_in, checksummed keccak mid_token,
            checksummed keccak asset_in] [f1, f2] = Inr (v3_layout [asset_in, mid_token, asset_in] [f1, f2])"
proof -
  have "encode_v3_path keccak [checksummed keccak asset_in, checksummed keccak mid_token,
            checksummed keccak asset_in] [f1, f2] =
        Inr (v3_layout [checksummed keccak asset_in, checksummed keccak mid_token,
            checksummed keccak asset_in] [f1, f2])"
    using a m f1 f2 by (intro encode_v3_path_layout) (simp_all add: is_hex_address_checksummed)
  then show ?thesis
    using a m by (simp add: v3_layout_def address_bytes_checksummed)
qed

lemma encode_flash_params_run:
  assumes a: "is_hex_address asset_in" and m: "is_hex_address mid_token"
    and q: "is_hex_address (UNIV3_QUOTER cfg)"
    and f1: "0 \<le> f1 \<and> f1 < 2 ^ 24" and f2: "0 \<le> f2 \<and> f2 < 2 ^ 24"
  shows "encode_flash_params_for_roundtrip keccak cfg w3 asset_in mid_token f1 f2 amt prem bps tr =
    (tr @ [Call_quoteExactInput (checksummed keccak (UNIV3_QUOTER cfg))
             (v3_layout [asset_in, mid_token, asset_in] [f1, f2]) amt],
     case quoteExactInput_call w3 tr (checksummed keccak (UNIV3_QUOTER cfg))
             (v3_layout [asset_in, mid_token, asset_in] [f1, f2]) amt of
       Inl e \<Rightarrow> Inl e
     | Inr quoted \<Rightarrow>
         (case abi_encode_bytes_uint256 (v3_layout [asset_in, mid_token, asset_in] [f1, f2])
                 (min_out amt prem bps) of
            Inl e \<Rightarrow> Inl e
          | Inr params \<Rightarrow> Inr (params, min_out amt prem bps, quoted)))"
  using roundtrip_path [OF a m f1 f2, of keccak] a m q
  by (simp add: encode_flash_params_for_roundtrip_def and_then_def lift_def call_def returns_def
      to_checksum_ok Let_def split: sum.splits)

lemma encode_flash_params_min_out:
  "encode_flash_params_for_roundtrip keccak cfg w3 asset_in mid_token f1 f2 amt prem bps tr =
     (tr', Inr (params, m, quoted)) \<Longrightarrow> m = min_out amt prem bps"
  by (auto simp: encode_flash_params_for_roundtrip_def and_then_def lift_def call_def returns_def
      Let_def split: sum.splits)

lemma encode_flash_params_params:
  "encode_flash_params_for_roundtrip keccak cfg w3 asset_in mid_token f1 f2 amt prem bps tr =
     (tr', Inr (params, m, quoted)) \<Longrightarrow>
   \<exists>path. encode_v3_path keccak [checksummed keccak asset_in, checksummed keccak mid_token,
            checksummed keccak asset_in] [f1, f2] = Inr path
     \<and> abi_encode_bytes_uint256 path (min_out amt prem bps) = Inr params"
  by (auto simp: encode_flash_params_for_roundtrip_def and_then_def lift_def call_def returns_def
      to_checksum_def Let_def split: sum.splits if_splits)

lemma abi_min_out_field:
  "abi_encode_bytes_uint256 path n = Inr params \<Longrightarrow>
   take 32 (drop 32 params) = be_bytes 32 n \<and> from_be (take 32 (drop 32 params)) = n"
proof -
  assume h: "abi_encode_bytes_uint256 path n = Inr params"
  then have rng: "0 \<le> n" "n < 2 ^ 256"
    by (auto simp: abi_encode_bytes_uint256_def split: if_splits)
  have p: "params = be_bytes 32 64 @ be_bytes 32 n @ be_bytes 32 (int (length path)) @ path @
                replicate ((32 - length path mod 32) mod 32) 0"
    using h by (auto simp: abi_encode_bytes_uint256_def split: if_splits)
  have t: "take 32 (drop 32 params) = be_bytes 32 n"
    by (simp add: p length_be_bytes)
  have "from_be (be_bytes 32 n) = n mod 256 ^ 32" by (rule from_be_be_bytes)
  also have "\<dots> = n" using rng by simp
  finally show ?thesis using t by simp
qed

lemma emits_returns: "emits P (returns x)"
  by (simp add: emits_def returns_def)

lemma emits_raises: "emits P (raises e)"
  by (simp add: emits_def raises_def)

lemma emits_lift: "emits P (lift r)"
  by (simp add: emits_def lift_def)

lemma emits_call: "P a \<Longrightarrow> emits P (call a reply)"
  by (simp add: emits_def call_def)

lemma emits_and_then:
  assumes m: "emits P m" and k: "\<And>x. emits P (k x)"
  shows "emits P (and_then m k)"
  unfolding emits_def
proof
  fix tr
  obtain s1 where s1: "fst (m tr) = tr @ s1" "list_all P s1"
    using m unfolding emits_def by blast
  show "\<exists>sfx. fst (and_then m k tr) = tr @ sfx \<and> list_all P sfx"
  proof (cases "snd (m tr)")
    case (Inl e)
    then have "and_then m k tr = (fst (m tr), Inl e)"
      by (cases "m tr") (simp add: and_then_def)
    then show ?thesis using s1 by auto
  next
    case (Inr x)
    then have eq: "and_then m k tr = k x (fst (m tr))"
      by (cases "m tr") (simp add: and_then_def)
    obtain s2 where s2: "fst (k x (fst (m tr))) = fst (m tr) @ s2" "list_all P s2"
      using k [of x] unfolding emits_def by blast
    have "fst (and_then m k tr) = tr @ (s1 @ s2)" using eq s1 s2 by simp
    then show ?thesis using s1 s2 by (intro exI [of _ "s1 @ s2"]) simp
  qed
qed

lemma emits_try_except:
  assumes m: "emits P m" and h: "\<And>e. emits P (h e)"
  shows "emits P (try_except m h)"
  unfolding emits_def
proof
  fix tr
  obtain s1 where s1: "fst (m tr) = tr @ s1" "list_all P s1"
    using m unfolding emits_def by blast
  show "\<exists>sfx. fst (try_except m h tr) = tr @ sfx \<and> list_all P sfx"
  proof (cases "snd (m tr)")
    case (Inr x)
    then have "try_except m h tr = (fst (m tr), Inr x)"
      by (cases "m tr") (simp add: try_except_def)
    then show ?thesis using s1 by auto
  next
    case (Inl e)
    then have eq: "try_except m h tr = h e (fst (m tr))"
      by (cases "m tr") (simp add: try_except_def)
    obtain s2 where s2: "fst (h e (fst (m tr))) = fst (m tr) @ s2" "list_all P s2"
      using h [of e] unfolding emits_def by blast
    have "fst (try_except m h tr) = tr @ (s1 @ s2)" using eq s1 s2 by simp
    then show ?thesis using s1 s2 by (intro exI [of _ "s1 @ s2"]) simp
  qed
qed

lemmas emits_intros = emits_returns emits_raises emits_lift emits_and_then emits_try_except

lemma emits_routing_count:
  "emits (\<lambda>a. \<not> is_routing a) m \<Longrightarrow> routing_count (fst (m tr)) = routing_count tr"
proof -
  assume "emits (\<lambda>a. \<not> is_routing a) m"
  then obtain sfx where s: "fst (m tr) = tr @ sfx" "list_all (\<lambda>a. \<not> is_routing a) sfx"
    unfolding emits_def by blast
  then have "filter is_routing sfx = []" by (simp add: list_all_iff)
  then show ?thesis using s by (simp add: routing_count_def)
qed

lemma not_routing:
  "\<not> is_routing (Call_owner c)"
  "\<not> is_routing (Call_quoteExactInput q p n)"
  "\<not> is_routing (Build_runSimpleFlash c a n bs s)"
  "\<not> is_routing (Get_transaction_count a)"
  "\<not> is_routing Get_chain_id"
  "\<not> is_routing Get_max_priority_fee"
  "\<not> is_routing Get_block_latest"
  "\<not> is_routing Get_gas_price"
  "\<not> is_routing (Estimate_gas tx)"
  "\<not> is_routing (Sign_transaction tx k)"
  "\<not> is_routing (Send_raw_transaction raw)"
  "\<not> is_routing (Wait_for_transaction_receipt h)"
  "\<not> is_routing (Process_receipt r)"
  "is_routing (Split_via_goldstem d)"
  by (simp_all add: is_routing_def)

lemma emits_suggest_fees:
  "P Get_max_priority_fee \<Longrightarrow> P Get_block_latest \<Longrightarrow> P Get_gas_price \<Longrightarrow> emits P (suggest_fees w3)"
  unfolding suggest_fees_def Let_def
  by (intro emits_intros emits_call) simp_all

lemma send_tx_quiet: "emits (\<lambda>a. \<not> is_routing a) (send_tx w3 tx signer)"
  unfolding send_tx_def Let_def
  by (intro emits_intros emits_call emits_suggest_fees allI impI
        | simp add: not_routing split: prod.splits)+

lemma encode_flash_params_quiet:
  "emits (\<lambda>a. \<not> is_routing a)
     (encode_flash_params_for_roundtrip keccak cfg w3 ai mt f1 f2 amt prem bps)"
  unfolding encode_flash_params_for_roundtrip_def Let_def
  by (intro emits_intros emits_call | simp add: not_routing)+

lemma flash_submit_quiet:
  "emits (\<lambda>a. \<not> is_routing a) (flash_submit keccak cfg w3 seed_account root_account executor)"
  unfolding flash_submit_def
  by (intro emits_intros emits_call send_tx_quiet encode_flash_params_quiet allI impI conjI
        | simp add: not_routing split: option.splits prod.splits)+

lemma decode_profit_total:
  "\<exists>p. decode_profit w3 rcpt tr = (tr @ [Process_receipt rcpt], Inr p)"
  by (simp add: decode_profit_def try_except_def and_then_def call_def returns_def raises_def
      split: sum.splits option.splits)

lemma flashloan_after_receipt:
  "flash_submit keccak cfg w3 seed_account root_account executor tr = (tr1, Inr (Some rcpt)) \<Longrightarrow>
   flashloan_and_arb keccak cfg w3 seed_account root_account executor goldstem tr =
     flash_settle cfg w3 root_account goldstem rcpt tr1"
  by (simp add: flashloan_and_arb_def and_then_def)

lemma flash_settle_eq:
  "decode_profit w3 rcpt tr1 = (tr2, Inr profit) \<Longrightarrow>
   flash_settle cfg w3 root_account goldstem rcpt tr1 =
     (if profit > MIN_PROFIT_WEI cfg
      then split_via_goldstem w3 (Decimal 1 (- 5)) root_account goldstem tr2
      else (tr2, Inr ()))"
  by (simp add: flash_settle_def and_then_def returns_def)

lemma decode_profit_zero:
  assumes "process_receipt w3 tr rcpt = Inl e \<or> process_receipt w3 tr rcpt = Inr []
     \<or> (\<exists>evts. process_receipt w3 tr rcpt = Inr evts \<and> evts \<noteq> []
          \<and> map_of (last evts) ''profitWei'' = None)"
  shows "decode_profit w3 rcpt tr = (tr @ [Process_receipt rcpt], Inr 0)"
  using assms
  by (auto simp: decode_profit_def try_except_def and_then_def call_def returns_def raises_def)

lemma decode_profit_event:
  assumes "process_receipt w3 tr rcpt = Inr evts" "evts \<noteq> []"
    "map_of (last evts) ''profitWei'' = Some p"
  shows "decode_profit w3 rcpt tr = (tr @ [Process_receipt rcpt], Inr p)"
  using assms
  by (auto simp: decode_profit_def try_except_def and_then_def call_def returns_def raises_def)

lemma split_via_goldstem_unfold:
  "split_via_goldstem w3 d root_account goldstem tr =
     and_then (lift (to_wei_ether d)) (\<lambda>v.
     and_then (send_tx w3
                 [(''to'', VStr (contract_address goldstem)),
                  (''value'', VInt v),
                  (''from'', VStr (address root_account))]
                 root_account) (\<lambda>rcpt.
     returns ())) (tr @ [Split_via_goldstem d])"
  unfolding split_via_goldstem_def
  by (subst and_then_def) (simp add: call_def)

lemma split_via_goldstem_routing:
  "routing_count (fst (split_via_goldstem w3 d root_account goldstem tr)) = routing_count tr + 1"
proof -
  have "emits (\<lambda>a. \<not> is_routing a)
     (and_then (lift (to_wei_ether d)) (\<lambda>v.
      and_then (send_tx w3
                 [(''to'', VStr (contract_address goldstem)),
                  (''value'', VInt v),
                  (''from'', VStr (address root_account))]
                 root_account) (\<lambda>rcpt.
      returns ())))"
    by (intro emits_intros send_tx_quiet)
  then show ?thesis
    by (simp add: split_via_goldstem_unfold emits_routing_count)
       (simp add: routing_count_def not_routing)
qed

lemma to_wei_dust: "to_wei_ether (Decimal 1 (- 5)) = Inr 10000000000000"
  by (simp add: to_wei_ether_def)

lemma map_of_setdefault:
  "map_of (setdefault k v tx) k' = (if map_of tx k = None \<and> k = k' then Some v else map_of tx k')"
  by (auto simp: setdefault_def update_conv')

lemma send_tx_transfers:
  assumes "map_of tx ''from'' = Some (VStr (address signer))"
    "map_of tx ''to'' = Some (VStr recipient)" "map_of tx ''value'' = Some (VInt v)"
  shows "emits (transfers (address signer) recipient v) (send_tx w3 tx signer)"
  unfolding send_tx_def Let_def
  using assms
  by (intro emits_intros emits_call emits_suggest_fees allI impI
        | simp add: transfers_def map_of_setdefault update_conv' split: prod.splits)+

lemma split_via_goldstem_transfers:
  "\<exists>sfx. fst (split_via_goldstem w3 (Decimal 1 (- 5)) root_account goldstem tr) =
            tr @ Split_via_goldstem (Decimal 1 (- 5)) # sfx
     \<and> list_all (transfers (address root_account) (contract_address goldstem) 10000000000000) sfx"
proof -
  let ?tx = "[(''to'', VStr (contract_address goldstem)), (''value'', VInt 10000000000000),
              (''from'', VStr (address root_account))]"
  have "emits (transfers (address root_account) (contract_address goldstem) 10000000000000)
          (and_then (send_tx w3 ?tx root_account) (\<lambda>rcpt. returns ()))"
    by (intro emits_intros send_tx_transfers) simp_all
  then obtain sfx where
    "fst (and_then (send_tx w3 ?tx root_account) (\<lambda>rcpt. returns ())
            (tr @ [Split_via_goldstem (Decimal 1 (- 5))])) =
       (tr @ [Split_via_goldstem (Decimal 1 (- 5))]) @ sfx"
    "list_all (transfers (address root_account) (contract_address goldstem) 10000000000000) sfx"
    unfolding emits_def by blast
  then show ?thesis
    by (intro exI [of _ sfx])
       (simp add: split_via_goldstem_unfold to_wei_dust and_then_def lift_def)
qed

lemma is_hex_address_UNIV3_QUOTER_default: "is_hex_address UNIV3_QUOTER_default"
  by (simp add: UNIV3_QUOTER_default_def is_hex_address_def remove_0x_prefix_def hex_digit_val_def)

lemma and_then_call:
  "and_then (call a r) k tr = (case r tr of Inl e \<Rightarrow> (tr @ [a], Inl e) | Inr x \<Rightarrow> k x (tr @ [a]))"
  by (simp add: and_then_def call_def split: sum.splits)

lemma and_then_lift:
  "and_then (lift r) k tr = (case r of Inl e \<Rightarrow> (tr, Inl e) | Inr x \<Rightarrow> k x tr)"
  by (simp add: and_then_def lift_def split: sum.splits)

lemma and_then_try_except:
  "and_then (try_except m h) k tr =
     (case try_except m h tr of (tr', Inl e) \<Rightarrow> (tr', Inl e) | (tr', Inr x) \<Rightarrow> k x tr')"
  by (simp add: and_then_def)

lemma and_then_returns: "and_then (returns x) k tr = k x tr"
  by (simp add: and_then_def returns_def)

lemma and_then_pair: "m tr = (tr', Inr x) \<Longrightarrow> and_then m k tr = k x tr'"
  by (simp add: and_then_def)

lemma and_then_snd: "snd (m tr) = Inr x \<Longrightarrow> and_then m k tr = k x (fst (m tr))"
  by (cases "m tr") (simp add: and_then_def)

lemma demo_send_tx:
  "snd (send_tx (demo_w3 owner quoted st evts) tx signer tr) = Inr (demo_rcpt st)"
  by (simp add: send_tx_def suggest_fees_def demo_w3_def and_then_def try_except_def call_def
      lift_def returns_def raises_def to_wei_ether_def Let_def)

lemma demo_and_then_send_tx:
  "and_then (send_tx (demo_w3 owner quoted st evts) tx signer) k tr =
     k (demo_rcpt st) (fst (send_tx (demo_w3 owner quoted st evts) tx signer tr))"
  by (rule and_then_snd [OF demo_send_tx])

lemma demo_cfg_simps:
  "FLASH_EXECUTOR_ADDRESS (demo_cfg th) = Some ''0x3333333333333333333333333333333333333333''"
  "FLASH_ASSET (demo_cfg th) = Some WETH_default"
  "USDC (demo_cfg th) = USDC_default"
  "UNIV3_QUOTER (demo_cfg th) = UNIV3_QUOTER_default"
  "FLASH_AMOUNT_WEI (demo_cfg th) = 1000000000000000000"
  "MIN_PROFIT_WEI (demo_cfg th) = th"
  "\<not> falsy (FLASH_EXECUTOR_ADDRESS (demo_cfg th))"
  "\<not> falsy (FLASH_ASSET (demo_cfg th))"
  by (simp_all add: demo_cfg_def falsy_def WETH_default_def)

lemma demo_w3_simps:
  "quoteExactInput_call (demo_w3 owner quoted st evts) = (\<lambda>h q p a. Inr quoted)"
  "owner_call (demo_w3 owner quoted st evts) = (\<lambda>h c. owner)"
  "runSimpleFlash_build (demo_w3 owner quoted st evts) = (\<lambda>h c asset amount params sender.
         Inr [(''to'', VStr c), (''from'', VStr sender), (''value'', VInt 0), (''data'', VBytes params)])"
  "process_receipt (demo_w3 owner quoted st evts) = (\<lambda>h r. evts)"
  by (simp_all add: demo_w3_def)

lemma WETH_default_nonempty: "WETH_default \<noteq> []"
  by (simp add: WETH_default_def)

lemma demo_encode:
  "\<exists>params. encode_flash_params_for_roundtrip no_upper (demo_cfg th)
      (demo_w3 owner quoted st evts) WETH_default USDC_default 500 500
      1000000000000000000 500000000000 30 tr =
     (tr @ [Call_quoteExactInput (checksummed no_upper UNIV3_QUOTER_default)
           (v3_layout [WETH_default, USDC_default, WETH_default] [500, 500]) 1000000000000000000],
      Inr (params, 1003000501500000000, quoted))"
proof -
  have m: "min_out 1000000000000000000 500000000000 30 = 1003000501500000000"
    by (simp add: min_out_def)
  show ?thesis
    by (subst encode_flash_params_run)
       (simp_all add: demo_cfg_simps demo_w3_simps m is_hex_address_WETH_default
          is_hex_address_USDC_default is_hex_address_UNIV3_QUOTER_default
          abi_encode_bytes_uint256_def)
qed

lemma demo_submit:
  "snd (flash_submit no_upper (demo_cfg th) (demo_w3 (Inr (address demo_root)) quoted st evts)
          demo_seed demo_root demo_executor tr) = Inr (Some (demo_rcpt st))"
proof -
  obtain params where enc: "encode_flash_params_for_roundtrip no_upper (demo_cfg th)
      (demo_w3 (Inr (address demo_root)) quoted st evts) WETH_default USDC_default 500 500
      1000000000000000000 500000000000 30 (tr @ [Call_owner (contract_address demo_executor)]) =
     ((tr @ [Call_owner (contract_address demo_executor)]) @
         [Call_quoteExactInput (checksummed no_upper UNIV3_QUOTER_default)
           (v3_layout [WETH_default, USDC_default, WETH_default] [500, 500]) 1000000000000000000],
      Inr (params, 1003000501500000000, quoted))"
    using demo_encode by blast
  note e2 = and_then_pair [of "encode_flash_params_for_roundtrip no_upper (demo_cfg th)
      (demo_w3 (Inr (address demo_root)) quoted st evts) WETH_default USDC_default 500 500
      1000000000000000000 500000000000 30", OF enc]
  show ?thesis
    by (simp add: flash_submit_def demo_cfg_simps demo_w3_simps falsy_def try_except_def
        and_then_try_except and_then_call and_then_lift and_then_returns e2 returns_def
        to_wei_ether_def str_of_def to_checksum_ok is_hex_address_WETH_default
        WETH_default_nonempty demo_and_then_send_tx)
qed

lemma demo_encode_small:
  "\<exists>params. encode_flash_params_for_roundtrip no_upper (demo_cfg th)
      (demo_w3 owner quoted st evts) WETH_default USDC_default 500 500 1000000 0 30 tr =
     (tr @ [Call_quoteExactInput (checksummed no_upper UNIV3_QUOTER_default)
           (v3_layout [WETH_default, USDC_default, WETH_default] [500, 500]) 1000000],
      Inr (params, 1003000, quoted))"
proof -
  have m: "min_out 1000000 0 30 = 1003000"
    by (simp add: min_out_def)
  show ?thesis
    by (subst encode_flash_params_run)
       (simp_all add: demo_cfg_simps demo_w3_simps m is_hex_address_WETH_default
          is_hex_address_USDC_default is_hex_address_UNIV3_QUOTER_default
          abi_encode_bytes_uint256_def)
qed

lemma demo_submit_pair:
  "flash_submit no_upper (demo_cfg th) (demo_w3 (Inr (address demo_root)) quoted st evts)
          demo_seed demo_root demo_executor tr =
     (fst (flash_submit no_upper (demo_cfg th) (demo_w3 (Inr (address demo_root)) quoted st evts)
          demo_seed demo_root demo_executor tr), Inr (Some (demo_rcpt st)))"
  using demo_submit [of th quoted st evts tr] by (simp add: prod_eq_iff)

lemma demo_decode:
  "decode_profit (demo_w3 owner quoted st (Inr [[(''profitWei'', p)]])) rcpt tr =
     (tr @ [Process_receipt rcpt], Inr p)"
  by (rule decode_profit_event [where evts = "[[(''profitWei'', p)]]"])
     (simp_all add: demo_w3_simps)

lemma suggest_fees_tip:
  "suggest_fees w3 tr = (tr', Inr (max_fee, max_prio)) \<Longrightarrow>
   max_prio = 200000000000
   \<and> tr' = tr @ [Get_max_priority_fee, Get_block_latest, Get_gas_price]"
  by (auto simp: suggest_fees_def and_then_def try_except_def call_def lift_def returns_def
      raises_def to_wei_ether_def Let_def split: sum.splits)

lemma map_of_send_tx_fields:
  assumes "k \<noteq> ''nonce''" "k \<noteq> ''chainId''" "k \<noteq> ''maxFeePerGas''"
    "k \<noteq> ''maxPriorityFeePerGas''" "k \<noteq> ''gas''"
  shows "map_of (AList.update ''gas'' g
           (setdefault ''maxPriorityFeePerGas'' p
             (setdefault ''maxFeePerGas'' f
               (AList.update ''chainId'' c (AList.update ''nonce'' n tx))))) k = map_of tx k"
  using assms by (simp add: map_of_setdefault update_conv')

lemma send_tx_returns:
  assumes "send_tx w3 tx signer tr = (tr', Inr rcpt)"
  shows "\<exists>est tx3 raw txh.
     tr' = tr @ [Get_transaction_count (address signer), Get_chain_id, Get_max_priority_fee,
                 Get_block_latest, Get_gas_price, Estimate_gas est,
                 Sign_transaction tx3 (key signer), Send_raw_transaction raw,
                 Wait_for_transaction_receipt txh]
     \<and> sign_transaction w3
           (tr @ [Get_transaction_count (address signer), Get_chain_id, Get_max_priority_fee,
                  Get_block_latest, Get_gas_price, Estimate_gas est])
           tx3 (key signer) = Inr raw
     \<and> map_of tx3 ''to'' = map_of tx ''to''
     \<and> map_of tx3 ''value'' = map_of tx ''value''
     \<and> map_of tx3 ''from'' = map_of tx ''from''"
proof -
  obtain nonce where n: "get_transaction_count w3 tr (address signer) = Inr nonce"
    using assms
    by (cases "get_transaction_count w3 tr (address signer)")
       (simp_all add: send_tx_def and_then_def call_def)
  let ?t1 = "tr @ [Get_transaction_count (address signer)]"
  obtain cid where c: "chain_id w3 ?t1 = Inr cid"
    using assms n
    by (cases "chain_id w3 ?t1") (simp_all add: send_tx_def and_then_def call_def)
  let ?t2 = "?t1 @ [Get_chain_id]"
  obtain t3 max_fee max_prio where f: "suggest_fees w3 ?t2 = (t3, Inr (max_fee, max_prio))"
    using assms n c
    by (cases "suggest_fees w3 ?t2"; cases "snd (suggest_fees w3 ?t2)")
       (auto simp: send_tx_def and_then_def call_def)
  have t3: "t3 = ?t2 @ [Get_max_priority_fee, Get_block_latest, Get_gas_price]"
    using suggest_fees_tip [OF f] by simp
  let ?tx2 = "setdefault ''maxPriorityFeePerGas'' (VInt max_prio)
                (setdefault ''maxFeePerGas'' (VInt max_fee)
                  (AList.update ''chainId'' (VInt cid) (AList.update ''nonce'' (VInt nonce) tx)))"
  let ?est = "AList.update ''from'' (VStr (address signer)) ?tx2"
  obtain gas where g: "estimate_gas w3 t3 ?est = Inr gas"
    using assms n c f
    by (cases "estimate_gas w3 t3 ?est")
       (simp_all add: send_tx_def and_then_def call_def Let_def)
  let ?tx3 = "AList.update ''gas'' (VInt gas) ?tx2"
  let ?t4 = "t3 @ [Estimate_gas ?est]"
  obtain raw where r: "sign_transaction w3 ?t4 ?tx3 (key signer) = Inr raw"
    using assms n c f g
    by (cases "sign_transaction w3 ?t4 ?tx3 (key signer)")
       (simp_all add: send_tx_def and_then_def call_def Let_def)
  let ?t5 = "?t4 @ [Sign_transaction ?tx3 (key signer)]"
  obtain txh where h: "send_raw_transaction w3 ?t5 raw = Inr txh"
    using assms n c f g r
    by (cases "send_raw_transaction w3 ?t5 raw")
       (simp_all add: send_tx_def and_then_def call_def Let_def)
  have tr': "tr' = ?t5 @ [Send_raw_transaction raw, Wait_for_transaction_receipt txh]"
    using assms n c f g r h
    by (simp add: send_tx_def and_then_def call_def Let_def)
  have fields: "map_of ?tx3 ''to'' = map_of tx ''to''" "map_of ?tx3 ''value'' = map_of tx ''value''"
    "map_of ?tx3 ''from'' = map_of tx ''from''"
    by (simp_all add: map_of_send_tx_fields)
  show ?thesis
    using tr' r fields unfolding t3
    by (intro exI [of _ ?est] exI [of _ ?tx3] exI [of _ raw] exI [of _ txh]) simp
qed

lemma suggest_fees_trace:
  "suggest_fees w3 tr = (tr', r) \<Longrightarrow>
   tr' = tr @ [Get_max_priority_fee, Get_block_latest]
   \<or> tr' = tr @ [Get_max_priority_fee, Get_block_latest, Get_gas_price]"
  by (auto simp: suggest_fees_def and_then_def try_except_def call_def lift_def returns_def
      raises_def to_wei_ether_def Let_def split: sum.splits)

lemma send_tx_broadcast:
  assumes run: "send_tx w3 tx signer tr = (tr @ sfx, r)"
    and sent: "Send_raw_transaction raw \<in> set sfx"
  shows "\<exists>est tx3.
     Sign_transaction tx3 (key signer) \<in> set sfx
     \<and> sign_transaction w3
           (tr @ [Get_transaction_count (address signer), Get_chain_id, Get_max_priority_fee,
                  Get_block_latest, Get_gas_price, Estimate_gas est])
           tx3 (key signer) = Inr raw
     \<and> map_of tx3 ''to'' = map_of tx ''to''
     \<and> map_of tx3 ''value'' = map_of tx ''value''
     \<and> map_of tx3 ''from'' = map_of tx ''from''"
proof (cases "get_transaction_count w3 tr (address signer)")
  case (Inl e)
  then show ?thesis using run sent by (auto simp: send_tx_def and_then_def call_def)
next
  case n: (Inr nonce)
  let ?t1 = "tr @ [Get_transaction_count (address signer)]"
  show ?thesis
  proof (cases "chain_id w3 ?t1")
    case (Inl e)
    then show ?thesis using run sent n by (auto simp: send_tx_def and_then_def call_def)
  next
    case c: (Inr cid)
    let ?t2 = "?t1 @ [Get_chain_id]"
    obtain t3 fr where f: "suggest_fees w3 ?t2 = (t3, fr)" by (cases "suggest_fees w3 ?t2")
    show ?thesis
    proof (cases fr)
      case (Inl e)
      then show ?thesis
        using run sent n c f suggest_fees_trace [OF f]
        by (auto simp: send_tx_def and_then_def call_def)
    next
      case (Inr fees)
      obtain max_fee max_prio where fees: "fees = (max_fee, max_prio)" by (cases fees)
      have f': "suggest_fees w3 ?t2 = (t3, Inr (max_fee, max_prio))" using f Inr fees by simp
      have t3: "t3 = ?t2 @ [Get_max_priority_fee, Get_block_latest, Get_gas_price]"
        using suggest_fees_tip [OF f'] by simp
      let ?tx2 = "setdefault ''maxPriorityFeePerGas'' (VInt max_prio)
                (setdefault ''maxFeePerGas'' (VInt max_fee)
                  (AList.update ''chainId'' (VInt cid) (AList.update ''nonce'' (VInt nonce) tx)))"
      let ?est = "AList.update ''from'' (VStr (address signer)) ?tx2"
      show ?thesis
      proof (cases "estimate_gas w3 t3 ?est")
        case (Inl e)
        then show ?thesis
          using run sent n c f' t3 by (auto simp: send_tx_def and_then_def call_def Let_def)
      next
        case g: (Inr gas)
        let ?tx3 = "AList.update ''gas'' (VInt gas) ?tx2"
        let ?t4 = "t3 @ [Estimate_gas ?est]"
        show ?thesis
        proof (cases "sign_transaction w3 ?t4 ?tx3 (key signer)")
          case (Inl e)
          then show ?thesis
            using run sent n c f' t3 g by (auto simp: send_tx_def and_then_def call_def Let_def)
        next
          case s: (Inr raw')
          have sfx: "sfx = [Get_transaction_count (address signer), Get_chain_id,
                  Get_max_priority_fee, Get_block_latest, Get_gas_price, Estimate_gas ?est,
                  Sign_transaction ?tx3 (key signer), Send_raw_transaction raw']
               \<or> (\<exists>txh. sfx = [Get_transaction_count (address signer), Get_chain_id,
                  Get_max_priority_fee, Get_block_latest, Get_gas_price, Estimate_gas ?est,
                  Sign_transaction ?tx3 (key signer), Send_raw_transaction raw',
                  Wait_for_transaction_receipt txh])"
            using run n c f' t3 g s
            by (auto simp: send_tx_def and_then_def call_def Let_def split: sum.splits)
          then have raw: "raw' = raw" and sg: "Sign_transaction ?tx3 (key signer) \<in> set sfx"
            using sent by auto
          have fields: "map_of ?tx3 ''to'' = map_of tx ''to''"
            "map_of ?tx3 ''value'' = map_of tx ''value''"
            "map_of ?tx3 ''from'' = map_of tx ''from''"
            by (simp_all add: map_of_send_tx_fields)
          show ?thesis
            using s sg fields unfolding raw t3
            by (intro exI [of _ ?est] exI [of _ ?tx3]) simp
        qed
      qed
    qed
  qed
qed

lemma fst_and_then_returns: "fst (and_then m (\<lambda>x. returns y) tr) = fst (m tr)"
  by (cases "m tr"; cases "snd (m tr)") (auto simp: and_then_def returns_def)

lemma split_via_goldstem_broadcast:
  assumes tr: "fst (split_via_goldstem w3 (Decimal 1 (- 5)) root_account goldstem tr) =
                 tr @ Split_via_goldstem (Decimal 1 (- 5)) # sfx"
    and sent: "Send_raw_transaction raw \<in> set sfx"
  shows "\<exists>est tx3.
     Sign_transaction tx3 (key root_account) \<in> set sfx
     \<and> sign_transaction w3
           (tr @ Split_via_goldstem (Decimal 1 (- 5)) #
              [Get_transaction_count (address root_account), Get_chain_id, Get_max_priority_fee,
               Get_block_latest, Get_gas_price, Estimate_gas est])
           tx3 (key root_account) = Inr raw
     \<and> map_of tx3 ''to'' = Some (VStr (contract_address goldstem))
     \<and> map_of tx3 ''value'' = Some (VInt 10000000000000)
     \<and> map_of tx3 ''from'' = Some (VStr (address root_account))"
proof -
  let ?tx = "[(''to'', VStr (contract_address goldstem)), (''value'', VInt 10000000000000),
              (''from'', VStr (address root_account))]"
  let ?t0 = "tr @ [Split_via_goldstem (Decimal 1 (- 5))]"
  have unf: "split_via_goldstem w3 (Decimal 1 (- 5)) root_account goldstem tr =
     and_then (send_tx w3 ?tx root_account) (\<lambda>rcpt. returns ()) ?t0"
    by (simp add: split_via_goldstem_unfold to_wei_dust and_then_lift)
  have "fst (send_tx w3 ?tx root_account ?t0) = ?t0 @ sfx"
    using tr by (simp add: unf fst_and_then_returns)
  then have s: "send_tx w3 ?tx root_account ?t0 =
      (?t0 @ sfx, snd (send_tx w3 ?tx root_account ?t0))"
    by (simp add: prod_eq_iff)
  from send_tx_broadcast [OF s sent] show ?thesis by simp
qed

lemma split_via_goldstem_returns:
  assumes "snd (split_via_goldstem w3 (Decimal 1 (- 5)) root_account goldstem tr) = Inr ()"
  shows "\<exists>est tx3 raw txh.
     fst (split_via_goldstem w3 (Decimal 1 (- 5)) root_account goldstem tr) =
       tr @ Split_via_goldstem (Decimal 1 (- 5)) #
         [Get_transaction_count (address root_account), Get_chain_id, Get_max_priority_fee,
          Get_block_latest, Get_gas_price, Estimate_gas est,
          Sign_transaction tx3 (key root_account), Send_raw_transaction raw,
          Wait_for_transaction_receipt txh]
     \<and> sign_transaction w3
           (tr @ Split_via_goldstem (Decimal 1 (- 5)) #
              [Get_transaction_count (address root_account), Get_chain_id, Get_max_priority_fee,
               Get_block_latest, Get_gas_price, Estimate_gas est])
           tx3 (key root_account) = Inr raw
     \<and> map_of tx3 ''to'' = Some (VStr (contract_address goldstem))
     \<and> map_of tx3 ''value'' = Some (VInt 10000000000000)
     \<and> map_of tx3 ''from'' = Some (VStr (address root_account))"
proof -
  let ?tx = "[(''to'', VStr (contract_address goldstem)), (''value'', VInt 10000000000000),
              (''from'', VStr (address root_account))]"
  let ?t0 = "tr @ [Split_via_goldstem (Decimal 1 (- 5))]"
  have unf: "split_via_goldstem w3 (Decimal 1 (- 5)) root_account goldstem tr =
     and_then (send_tx w3 ?tx root_account) (\<lambda>rcpt. returns ()) ?t0"
    by (simp add: split_via_goldstem_unfold to_wei_dust and_then_lift)
  obtain tr' r where s: "send_tx w3 ?tx root_account ?t0 = (tr', r)"
    by (cases "send_tx w3 ?tx root_account ?t0")
  obtain rcpt where r: "r = Inr rcpt"
    using assms s by (cases r) (simp_all add: unf and_then_def)
  have fst_eq: "fst (split_via_goldstem w3 (Decimal 1 (- 5)) root_account goldstem tr) = tr'"
    using s r by (simp add: unf and_then_def returns_def)
  from send_tx_returns [OF s [unfolded r]] show ?thesis
    unfolding fst_eq by simp
qed

section \<open>The path codec\<close>

text \<open>
  Claim C2. For a token list of \<open>n \<ge> 2\<close> address strings and \<open>n - 1\<close> fees, each in
  \<open>0 ..< 2 ^ 24\<close>, \<open>encode_v3_path\<close> returns \<open>addr0 | fee0 | addr1 | ...\<close> with every
  address 20 bytes and every fee 3 bytes big-endian. The result has
  \<open>20 * n + 3 * (n - 1)\<close> bytes, and cutting it by field width gives back the
  addresses and the fees. The 20 bytes of an address give back its digits.
\<close>

theorem encode_v3_path_roundtrip:
  assumes lens: "2 \<le> length tokens" "length fees = length tokens - 1"
    and toks: "\<forall>t\<in>set tokens. is_hex_address t"
    and fs: "\<forall>f\<in>set fees. 0 \<le> f \<and> f < 2 ^ 24"
  shows "encode_v3_path keccak tokens fees = Inr (v3_layout tokens fees)
    \<and> length (v3_layout tokens fees) = 20 * length tokens + 3 * (length tokens - 1)
    \<and> split_v3_path (v3_layout tokens fees) = (map address_bytes tokens, fees)
    \<and> (\<forall>t\<in>set tokens. length (address_bytes t) = 20
          \<and> hexlify (address_bytes t) = map to_lower (remove_0x_prefix t))
    \<and> (\<forall>f\<in>set fees. length (be_bytes 3 f) = 3 \<and> from_be (be_bytes 3 f) = f)"
proof -
  obtain t0 ts where tk: "tokens = t0 # ts" using lens(1) by (cases tokens) auto
  have len_ts: "length fees = length ts" using lens(2) tk by simp
  have t0: "is_hex_address t0" and ts: "\<forall>t\<in>set ts. is_hex_address t" using toks tk by auto
  have ts20: "\<forall>t\<in>set ts. length (address_bytes t) = 20"
    using ts by (simp add: length_address_bytes)
  let ?hops = "concat (map (\<lambda>(f, t). be_bytes 3 f @ address_bytes t) (zip fees ts))"
  have lay: "v3_layout (t0 # ts) fees = address_bytes t0 @ ?hops"
    by (simp add: v3_layout_def)
  have enc: "encode_v3_path keccak tokens fees = Inr (v3_layout tokens fees)"
    using lens toks fs by (rule encode_v3_path_layout)
  have lh: "length ?hops = 23 * length fees"
    using len_ts ts20 by (rule length_hops)
  have len: "length (v3_layout tokens fees) = 20 * length tokens + 3 * (length tokens - 1)"
    using lh len_ts t0 by (simp add: tk lay length_address_bytes)
  have sh: "split_hops (length fees) ?hops = zip fees (map address_bytes ts)"
    using len_ts ts20 fs by (rule split_hops_concat)
  have split: "split_v3_path (v3_layout tokens fees) = (map address_bytes tokens, fees)"
    using sh lh len_ts t0
    by (simp add: split_v3_path_def tk lay length_address_bytes)
  have addrs: "\<forall>t\<in>set tokens. length (address_bytes t) = 20
          \<and> hexlify (address_bytes t) = map to_lower (remove_0x_prefix t)"
    using toks by (simp add: length_address_bytes hexlify_address_bytes)
  have fees3: "\<forall>f\<in>set fees. length (be_bytes 3 f) = 3 \<and> from_be (be_bytes 3 f) = f"
    using fs by (simp add: length_be_bytes from_be_be_bytes)
  show ?thesis using enc len split addrs fees3 by blast
qed

theorem encode_v3_path_roundtrip_witness:
  "encode_v3_path no_upper [WETH_default, USDC_default, WETH_default] [500, 500] = Inr (v3_layout [WETH_default, USDC_default, WETH_default] [500, 500])
   \<and> length (v3_layout [WETH_default, USDC_default, WETH_default] [500, 500]) = 66
   \<and> split_v3_path (v3_layout [WETH_default, USDC_default, WETH_default] [500, 500]) = (map address_bytes [WETH_default, USDC_default, WETH_default], [500, 500])"
  using encode_v3_path_roundtrip [of "[WETH_default, USDC_default, WETH_default]" "[500, 500]" no_upper]
  by (simp add: is_hex_address_WETH_default is_hex_address_USDC_default)

text \<open>
  Claim C3. When the lengths violate the precondition (fewer than two tokens, or a
  number of fees other than the number of tokens minus one), \<open>encode_v3_path\<close> raises
  the assertion error of line 97 (the spec's \<open>MalformedPath\<close>), and it does so before
  the output buffer exists: no byte has been written.
\<close>

theorem encode_v3_path_bad_lens:
  assumes "length tokens < 2 \<or> int (length fees) \<noteq> int (length tokens) - 1"
  shows "encode_v3_path_out keccak tokens fees = Inl (AssertionError ''bad path lens'', None)
    \<and> encode_v3_path keccak tokens fees = Inl (AssertionError ''bad path lens'')"
  using assms by (auto simp: encode_v3_path_def encode_v3_path_out_def)

theorem encode_v3_path_bad_lens_witness:
  "(length [WETH_default, USDC_default] < 2 \<or> int (length [500, 3000 :: int]) \<noteq> int (length [WETH_default, USDC_default]) - 1)
   \<and> encode_v3_path_out no_upper [WETH_default, USDC_default] [500, 3000] = Inl (AssertionError ''bad path lens'', None)
   \<and> encode_v3_path no_upper [WETH_default, USDC_default] [500, 3000] = Inl (AssertionError ''bad path lens'')"
  using encode_v3_path_bad_lens [of "[WETH_default, USDC_default]" "[500, 3000]" no_upper]
  by simp

text \<open>
  Claim C9 says that a fee outside three bytes still yields a byte string. It does not:
  \<^verbatim>\<open>int.to_bytes(3, ...)\<close> raises \<^verbatim>\<open>OverflowError\<close> at \<open>2 ^ 24\<close> and at \<open>- 1\<close>, and no fee
  outside \<open>0 ..< 2 ^ 24\<close> gives a path.
\<close>

theorem fee_out_of_width_counterexample:
  "encode_v3_path no_upper [WETH_default, USDC_default] [16777216] = Inl OverflowError
   \<and> encode_v3_path no_upper [WETH_default, USDC_default] [- 1] = Inl OverflowError
   \<and> \<not> (\<exists>fee bs. (fee < 0 \<or> 2 ^ 24 \<le> fee) \<and> encode_v3_path no_upper [WETH_default, USDC_default] [fee] = Inr bs)"
proof -
  have "\<And>fee. fee < 0 \<or> 2 ^ 24 \<le> fee \<Longrightarrow> encode_v3_path no_upper [WETH_default, USDC_default] [fee] = Inl OverflowError"
    by (simp add: encode_v3_path_def encode_v3_path_out_def to20_ok is_hex_address_WETH_default fee3_overflow)
  then show ?thesis by (auto simp del: One_nat_def)
qed

text \<open>
  Claim C9, amended. Whenever some fee is negative or at least \<open>2 ^ 24\<close>,
  \<open>encode_v3_path\<close> returns no byte string; with lengths and addresses valid, it
  raises \<^verbatim>\<open>OverflowError\<close>.
\<close>

theorem encode_v3_path_fee_overflow:
  assumes bad: "\<exists>f\<in>set fees. f < 0 \<or> 2 ^ 24 \<le> f"
  shows "(\<forall>bs. encode_v3_path keccak tokens fees \<noteq> Inr bs)
    \<and> (2 \<le> length tokens \<and> length fees = length tokens - 1 \<and> (\<forall>t\<in>set tokens. is_hex_address t)
         \<longrightarrow> encode_v3_path keccak tokens fees = Inl OverflowError)"
proof (intro conjI allI impI)
  fix bs
  show "encode_v3_path keccak tokens fees \<noteq> Inr bs"
    using encode_v3_loop_not_Inr [OF bad]
    by (auto simp: encode_v3_path_def encode_v3_path_out_def split: sum.splits)
next
  assume a: "2 \<le> length tokens \<and> length fees = length tokens - 1 \<and> (\<forall>t\<in>set tokens. is_hex_address t)"
  then have "tokens ! 0 \<in> set tokens" by (intro nth_mem) auto
  then have t0: "to20 keccak (tokens ! 0) = Inr (address_bytes (tokens ! 0))"
    using a by (simp add: to20_ok)
  have "\<exists>w. encode_v3_loop keccak tokens 0 fees (address_bytes (tokens ! 0)) = Inl (OverflowError, w)"
    using a bad by (intro encode_v3_loop_overflow) auto
  then show "encode_v3_path keccak tokens fees = Inl OverflowError"
    using a t0 by (auto simp: encode_v3_path_def encode_v3_path_out_def)
qed

theorem encode_v3_path_fee_overflow_witness:
  "(\<exists>f\<in>set [500, 16777216 :: int]. f < 0 \<or> 2 ^ 24 \<le> f)
   \<and> encode_v3_path no_upper [WETH_default, USDC_default, WETH_default] [500, 16777216] = Inl OverflowError"
  using encode_v3_path_fee_overflow [of "[500, 16777216]" no_upper "[WETH_default, USDC_default, WETH_default]"]
  by (simp add: is_hex_address_WETH_default is_hex_address_USDC_default)

section \<open>The minimum output\<close>

text \<open>
  Claim C4. For every borrowed amount, premium and buffer, the minimum output of lines
  126--127 is \<open>max (repayTarget + floor (repayTarget * bufferBps / 10000)) 1\<close> with
  \<open>repayTarget = amountBorrowed + estimatedPremium\<close>; it is never below 1; for
  \<open>(1000000, 0, 30)\<close> it is \<open>1003000\<close>. It is the value
  \<open>encode_flash_params_for_roundtrip\<close> returns whenever it returns, and the function
  returns it whenever the addresses are valid, the fees fit three bytes, the quote
  succeeds and the value fits a \<^verbatim>\<open>uint256\<close>.
\<close>

theorem min_out_formula:
  "min_out a p b = minOut_spec a p b
   \<and> 1 \<le> min_out a p b
   \<and> min_out 1000000 0 30 = 1003000
   \<and> (encode_flash_params_for_roundtrip keccak cfg w3 asset_in mid_token f1 f2 a p b tr =
         (tr', Inr (params, m, quoted)) \<longrightarrow> m = min_out a p b)
   \<and> (is_hex_address asset_in \<and> is_hex_address mid_token \<and> is_hex_address (UNIV3_QUOTER cfg)
        \<and> 0 \<le> f1 \<and> f1 < 2 ^ 24 \<and> 0 \<le> f2 \<and> f2 < 2 ^ 24 \<and> min_out a p b < 2 ^ 256
        \<and> quoteExactInput_call w3 tr (checksummed keccak (UNIV3_QUOTER cfg))
             (v3_layout [asset_in, mid_token, asset_in] [f1, f2]) a = Inr q
      \<longrightarrow> (\<exists>bs. encode_flash_params_for_roundtrip keccak cfg w3 asset_in mid_token f1 f2 a p b tr =
             (tr @ [Call_quoteExactInput (checksummed keccak (UNIV3_QUOTER cfg))
                      (v3_layout [asset_in, mid_token, asset_in] [f1, f2]) a],
              Inr (bs, min_out a p b, q))))"
proof (intro conjI impI)
  show "min_out a p b = minOut_spec a p b" by (rule min_out_eq_spec)
  show "1 \<le> min_out a p b" by (simp add: min_out_def Let_def)
  show "min_out 1000000 0 30 = 1003000" by (simp add: min_out_def)
next
  assume "encode_flash_params_for_roundtrip keccak cfg w3 asset_in mid_token f1 f2 a p b tr =
         (tr', Inr (params, m, quoted))"
  then show "m = min_out a p b" by (rule encode_flash_params_min_out)
next
  assume h: "is_hex_address asset_in \<and> is_hex_address mid_token \<and> is_hex_address (UNIV3_QUOTER cfg)
        \<and> 0 \<le> f1 \<and> f1 < 2 ^ 24 \<and> 0 \<le> f2 \<and> f2 < 2 ^ 24 \<and> min_out a p b < 2 ^ 256
        \<and> quoteExactInput_call w3 tr (checksummed keccak (UNIV3_QUOTER cfg))
             (v3_layout [asset_in, mid_token, asset_in] [f1, f2]) a = Inr q"
  have pos: "0 \<le> min_out a p b" by (simp add: min_out_def Let_def)
  have run: "encode_flash_params_for_roundtrip keccak cfg w3 asset_in mid_token f1 f2 a p b tr =
    (tr @ [Call_quoteExactInput (checksummed keccak (UNIV3_QUOTER cfg))
             (v3_layout [asset_in, mid_token, asset_in] [f1, f2]) a],
     case quoteExactInput_call w3 tr (checksummed keccak (UNIV3_QUOTER cfg))
             (v3_layout [asset_in, mid_token, asset_in] [f1, f2]) a of
       Inl e \<Rightarrow> Inl e
     | Inr quoted \<Rightarrow>
         (case abi_encode_bytes_uint256 (v3_layout [asset_in, mid_token, asset_in] [f1, f2])
                 (min_out a p b) of
            Inl e \<Rightarrow> Inl e
          | Inr params \<Rightarrow> Inr (params, min_out a p b, quoted)))"
    using h by (intro encode_flash_params_run) simp_all
  show "\<exists>bs. encode_flash_params_for_roundtrip keccak cfg w3 asset_in mid_token f1 f2 a p b tr =
             (tr @ [Call_quoteExactInput (checksummed keccak (UNIV3_QUOTER cfg))
                      (v3_layout [asset_in, mid_token, asset_in] [f1, f2]) a],
              Inr (bs, min_out a p b, q))"
    using h pos by (simp add: run abi_encode_bytes_uint256_def)
qed

theorem min_out_formula_witness:
  "\<exists>params tr'. encode_flash_params_for_roundtrip no_upper (demo_cfg 0)
       (demo_w3 (Inr (address demo_root)) 1002000 1 (Inr [])) WETH_default USDC_default 500 500
       1000000 0 30 [] = (tr', Inr (params, 1003000, 1002000))
     \<and> min_out 1000000 0 30 = 1003000 \<and> minOut_spec 1000000 0 30 = 1003000
     \<and> min_out 0 0 30 = 1"
proof -
  obtain params where e: "encode_flash_params_for_roundtrip no_upper (demo_cfg 0)
       (demo_w3 (Inr (address demo_root)) 1002000 1 (Inr [])) WETH_default USDC_default 500 500
       1000000 0 30 [] =
     ([] @ [Call_quoteExactInput (checksummed no_upper UNIV3_QUOTER_default)
           (v3_layout [WETH_default, USDC_default, WETH_default] [500, 500]) 1000000],
      Inr (params, 1003000, 1002000))"
    using demo_encode_small by blast
  have "1003000 = min_out 1000000 0 30 \<and> min_out 1000000 0 30 = minOut_spec 1000000 0 30"
    using min_out_formula [of 1000000 0 30 no_upper "demo_cfg 0"
        "demo_w3 (Inr (address demo_root)) 1002000 1 (Inr [])" WETH_default USDC_default 500 500
        "[]" _ params 1003000 1002000] e
    by blast
  moreover have "min_out 0 0 30 = 1" by (simp add: min_out_def)
  ultimately show ?thesis using e by auto
qed

text \<open>
  Claim C5. The enforced minimum does not depend on the quote: two runs of
  \<open>encode_flash_params_for_roundtrip\<close> that differ only in what the pricing contract
  answers return the same \<open>min_out\<close> and the same parameter bytes, and the second
  32-byte word of the parameters is \<open>min_out\<close> of the amount, the premium and the buffer.
\<close>

theorem min_out_ignores_quote:
  assumes r1: "encode_flash_params_for_roundtrip keccak cfg w3 asset_in mid_token f1 f2 a p b tr =
         (tr1, Inr (params1, m1, quoted1))"
    and r2: "encode_flash_params_for_roundtrip keccak cfg (w3\<lparr>quoteExactInput_call := other_quote\<rparr>)
         asset_in mid_token f1 f2 a p b tr = (tr2, Inr (params2, m2, quoted2))"
  shows "m2 = m1 \<and> params2 = params1 \<and> m1 = min_out a p b
    \<and> take 32 (drop 32 params1) = be_bytes 32 (min_out a p b)
    \<and> from_be (take 32 (drop 32 params1)) = min_out a p b"
proof -
  have m1: "m1 = min_out a p b" using r1 by (rule encode_flash_params_min_out)
  have m2: "m2 = min_out a p b" using r2 by (rule encode_flash_params_min_out)
  obtain path1 where p1: "encode_v3_path keccak [checksummed keccak asset_in, checksummed keccak mid_token,
            checksummed keccak asset_in] [f1, f2] = Inr path1"
     "abi_encode_bytes_uint256 path1 (min_out a p b) = Inr params1"
    using encode_flash_params_params [OF r1] by blast
  obtain path2 where p2: "encode_v3_path keccak [checksummed keccak asset_in, checksummed keccak mid_token,
            checksummed keccak asset_in] [f1, f2] = Inr path2"
     "abi_encode_bytes_uint256 path2 (min_out a p b) = Inr params2"
    using encode_flash_params_params [OF r2] by blast
  have "params2 = params1" using p1 p2 by simp
  with m1 m2 abi_min_out_field [OF p1(2)] show ?thesis by blast
qed

theorem min_out_ignores_quote_witness:
  "\<exists>params tr1 tr2.
     encode_flash_params_for_roundtrip no_upper (demo_cfg 0)
       (demo_w3 (Inr (address demo_root)) 1002000000000000000 1 (Inr []))
       WETH_default USDC_default 500 500 1000000000000000000 500000000000 30 [] =
         (tr1, Inr (params, 1003000501500000000, 1002000000000000000))
     \<and> encode_flash_params_for_roundtrip no_upper (demo_cfg 0)
       ((demo_w3 (Inr (address demo_root)) 1002000000000000000 1 (Inr []))
          \<lparr>quoteExactInput_call := (\<lambda>h q path n. Inr 7)\<rparr>)
       WETH_default USDC_default 500 500 1000000000000000000 500000000000 30 [] =
         (tr2, Inr (params, 1003000501500000000, 7))
     \<and> from_be (take 32 (drop 32 params)) = 1003000501500000000"
proof -
  let ?w = "demo_w3 (Inr (address demo_root)) 1002000000000000000 1 (Inr [])"
  have eq: "?w\<lparr>quoteExactInput_call := (\<lambda>h q path n. Inr 7)\<rparr> = demo_w3 (Inr (address demo_root)) 7 1 (Inr [])"
    by (simp add: demo_w3_def)
  obtain params1 where e1: "encode_flash_params_for_roundtrip no_upper (demo_cfg 0) ?w
       WETH_default USDC_default 500 500 1000000000000000000 500000000000 30 [] =
     ([] @ [Call_quoteExactInput (checksummed no_upper UNIV3_QUOTER_default)
           (v3_layout [WETH_default, USDC_default, WETH_default] [500, 500]) 1000000000000000000],
      Inr (params1, 1003000501500000000, 1002000000000000000))"
    using demo_encode by blast
  obtain params2 where e2: "encode_flash_params_for_roundtrip no_upper (demo_cfg 0)
       (?w\<lparr>quoteExactInput_call := (\<lambda>h q path n. Inr 7)\<rparr>)
       WETH_default USDC_default 500 500 1000000000000000000 500000000000 30 [] =
     ([] @ [Call_quoteExactInput (checksummed no_upper UNIV3_QUOTER_default)
           (v3_layout [WETH_default, USDC_default, WETH_default] [500, 500]) 1000000000000000000],
      Inr (params2, 1003000501500000000, 7))"
    unfolding eq using demo_encode by blast
  have m: "min_out 1000000000000000000 500000000000 30 = 1003000501500000000"
    by (simp add: min_out_def)
  from min_out_ignores_quote [OF e1 e2]
  have "params2 = params1" and "from_be (take 32 (drop 32 params1)) = 1003000501500000000"
    unfolding m by blast+
  then show ?thesis using e1 e2 by blast
qed

section \<open>The flash orchestration\<close>

text \<open>
  Claim C1. When the \<^verbatim>\<open>owner()\<close> read fails or returns an address other than the
  operating account's, \<open>flashloan_and_arb\<close> returns at once: the only thing it has done
  is the owner read (nothing at all when the flow is not configured), so no
  transaction has been signed or broadcast.
\<close>

theorem owner_gate:
  assumes "owner_call w3 tr (contract_address executor) \<noteq> Inr (address root_account)"
  shows "flashloan_and_arb keccak cfg w3 seed_account root_account executor goldstem tr =
           ((if falsy (FLASH_EXECUTOR_ADDRESS cfg) \<or> falsy (FLASH_ASSET cfg) \<or> FLASH_AMOUNT_WEI cfg \<le> 0
             then tr else tr @ [Call_owner (contract_address executor)]), Inr ())
    \<and> filter is_submission (fst (flashloan_and_arb keccak cfg w3 seed_account root_account executor goldstem tr)) =
        filter is_submission tr"
proof -
  have "flashloan_and_arb keccak cfg w3 seed_account root_account executor goldstem tr =
           ((if falsy (FLASH_EXECUTOR_ADDRESS cfg) \<or> falsy (FLASH_ASSET cfg) \<or> FLASH_AMOUNT_WEI cfg \<le> 0
             then tr else tr @ [Call_owner (contract_address executor)]), Inr ())"
    using assms
    by (cases "owner_call w3 tr (contract_address executor)")
       (simp_all add: flashloan_and_arb_def flash_submit_def and_then_def try_except_def call_def
          returns_def)
  then show ?thesis by (simp add: is_submission_def)
qed

theorem owner_gate_witness:
  "flashloan_and_arb no_upper (demo_cfg 0)
       (demo_w3 (Inr (address demo_seed)) 1002000000000000000 1 (Inr [[(''profitWei'', 500)]]))
       demo_seed demo_root demo_executor demo_goldstem [] =
     ([Call_owner (contract_address demo_executor)], Inr ())
   \<and> flashloan_and_arb no_upper (demo_cfg 0)
       (demo_w3 (Inl (RpcError ''timeout'')) 1002000000000000000 1 (Inr [[(''profitWei'', 500)]]))
       demo_seed demo_root demo_executor demo_goldstem [] =
     ([Call_owner (contract_address demo_executor)], Inr ())"
  using owner_gate [of "demo_w3 (Inr (address demo_seed)) 1002000000000000000 1 (Inr [[(''profitWei'', 500)]])"
          "[]" demo_executor demo_root no_upper "demo_cfg 0" demo_seed demo_goldstem]
        owner_gate [of "demo_w3 (Inl (RpcError ''timeout'')) 1002000000000000000 1 (Inr [[(''profitWei'', 500)]])"
          "[]" demo_executor demo_root no_upper "demo_cfg 0" demo_seed demo_goldstem]
  by (simp add: demo_w3_simps demo_cfg_simps falsy_def WETH_default_nonempty demo_root_def
      demo_seed_def)

text \<open>
  Claim C7. Once the flash transaction has a receipt, the routing action fires exactly
  when the decoded profit is strictly greater than the threshold, and then exactly
  once: with threshold 400 a profit of 500 routes once, a profit of 300 or of 400 does
  not route.
\<close>

theorem routing_iff_profit_exceeds_threshold:
  assumes sub: "flash_submit keccak cfg w3 seed_account root_account executor tr =
                  (tr1, Inr (Some rcpt))"
    and dec: "decode_profit w3 rcpt tr1 = (tr2, Inr profit)"
  shows "routing_count (fst (flashloan_and_arb keccak cfg w3 seed_account root_account executor
            goldstem tr)) = routing_count tr + (if profit > MIN_PROFIT_WEI cfg then 1 else 0)
    \<and> (profit > MIN_PROFIT_WEI cfg \<longleftrightarrow>
         routing_count (fst (flashloan_and_arb keccak cfg w3 seed_account root_account executor
            goldstem tr)) = routing_count tr + 1)"
proof -
  have q1: "routing_count tr1 = routing_count tr"
    using emits_routing_count [OF flash_submit_quiet, of keccak cfg w3 seed_account root_account
        executor tr] sub by simp
  obtain p' where "decode_profit w3 rcpt tr1 = (tr1 @ [Process_receipt rcpt], Inr p')"
    using decode_profit_total by blast
  then have tr2: "tr2 = tr1 @ [Process_receipt rcpt]" using dec by simp
  have q2: "routing_count tr2 = routing_count tr"
    using q1 by (simp add: tr2 routing_count_def not_routing)
  have run: "flashloan_and_arb keccak cfg w3 seed_account root_account executor goldstem tr =
     (if profit > MIN_PROFIT_WEI cfg
      then split_via_goldstem w3 (Decimal 1 (- 5)) root_account goldstem tr2
      else (tr2, Inr ()))"
    by (simp only: flashloan_after_receipt [OF sub] flash_settle_eq [OF dec])
  have "routing_count (fst (flashloan_and_arb keccak cfg w3 seed_account root_account executor
            goldstem tr)) = routing_count tr + (if profit > MIN_PROFIT_WEI cfg then 1 else 0)"
    using q2 by (simp add: run split_via_goldstem_routing)
  then show ?thesis by simp
qed

theorem routing_iff_profit_exceeds_threshold_witness:
  "routing_count (fst (flashloan_and_arb no_upper (demo_cfg 400)
       (demo_w3 (Inr (address demo_root)) 1002000000000000000 1 (Inr [[(''profitWei'', 500)]]))
       demo_seed demo_root demo_executor demo_goldstem [])) = 1
   \<and> routing_count (fst (flashloan_and_arb no_upper (demo_cfg 400)
       (demo_w3 (Inr (address demo_root)) 1002000000000000000 1 (Inr [[(''profitWei'', 300)]]))
       demo_seed demo_root demo_executor demo_goldstem [])) = 0
   \<and> routing_count (fst (flashloan_and_arb no_upper (demo_cfg 400)
       (demo_w3 (Inr (address demo_root)) 1002000000000000000 1 (Inr [[(''profitWei'', 400)]]))
       demo_seed demo_root demo_executor demo_goldstem [])) = 0"
  using routing_iff_profit_exceeds_threshold [where goldstem = demo_goldstem,
          OF demo_submit_pair [of 400 1002000000000000000 1 "Inr [[(''profitWei'', 500)]]" "[]"]
             demo_decode]
        routing_iff_profit_exceeds_threshold [where goldstem = demo_goldstem,
          OF demo_submit_pair [of 400 1002000000000000000 1 "Inr [[(''profitWei'', 300)]]" "[]"]
             demo_decode]
        routing_iff_profit_exceeds_threshold [where goldstem = demo_goldstem,
          OF demo_submit_pair [of 400 1002000000000000000 1 "Inr [[(''profitWei'', 400)]]" "[]"]
             demo_decode]
  by (simp add: demo_cfg_simps routing_count_def)

text \<open>
  Claim C8. When decoding raises, or the receipt holds no \<^verbatim>\<open>FlashCompleted\<close> event, or
  the last event has no \<^verbatim>\<open>profitWei\<close> argument, the profit is 0; with a non-negative
  threshold the run then ends normally right after the decoding: no exception, no
  further submission, no routing.
\<close>

theorem undecodable_profit_is_no_go:
  assumes sub: "flash_submit keccak cfg w3 seed_account root_account executor tr =
                  (tr1, Inr (Some rcpt))"
    and bad: "process_receipt w3 tr1 rcpt = Inl e \<or> process_receipt w3 tr1 rcpt = Inr []
       \<or> (\<exists>evts. process_receipt w3 tr1 rcpt = Inr evts \<and> evts \<noteq> []
            \<and> map_of (last evts) ''profitWei'' = None)"
    and thr: "0 \<le> MIN_PROFIT_WEI cfg"
  shows "decode_profit w3 rcpt tr1 = (tr1 @ [Process_receipt rcpt], Inr 0)
    \<and> flashloan_and_arb keccak cfg w3 seed_account root_account executor goldstem tr =
        (tr1 @ [Process_receipt rcpt], Inr ())"
proof -
  have dec: "decode_profit w3 rcpt tr1 = (tr1 @ [Process_receipt rcpt], Inr 0)"
    using bad by (rule decode_profit_zero)
  have "flashloan_and_arb keccak cfg w3 seed_account root_account executor goldstem tr =
        (tr1 @ [Process_receipt rcpt], Inr ())"
    using thr by (simp add: flashloan_after_receipt [OF sub] flash_settle_eq [OF dec])
  then show ?thesis using dec by simp
qed

theorem undecodable_profit_is_no_go_witness:
  "(\<exists>tr1. flashloan_and_arb no_upper (demo_cfg 0)
       (demo_w3 (Inr (address demo_root)) 1002000000000000000 1 (Inr []))
       demo_seed demo_root demo_executor demo_goldstem [] =
         (tr1 @ [Process_receipt (demo_rcpt 1)], Inr ()) 
       \<and> snd (flash_submit no_upper (demo_cfg 0)
           (demo_w3 (Inr (address demo_root)) 1002000000000000000 1 (Inr []))
           demo_seed demo_root demo_executor []) = Inr (Some (demo_rcpt 1))
       \<and> tr1 = fst (flash_submit no_upper (demo_cfg 0)
           (demo_w3 (Inr (address demo_root)) 1002000000000000000 1 (Inr []))
           demo_seed demo_root demo_executor []))
   \<and> (\<exists>tr1. flashloan_and_arb no_upper (demo_cfg 0)
       (demo_w3 (Inr (address demo_root)) 1002000000000000000 1 (Inl (RpcError ''abi mismatch'')))
       demo_seed demo_root demo_executor demo_goldstem [] =
         (tr1 @ [Process_receipt (demo_rcpt 1)], Inr ()))"
proof -
  have a: "0 \<le> MIN_PROFIT_WEI (demo_cfg 0)" by (simp add: demo_cfg_simps)
  have b1: "process_receipt (demo_w3 (Inr (address demo_root)) 1002000000000000000 1 (Inr [])) h
      (demo_rcpt 1) = Inr []" for h
    by (simp add: demo_w3_simps)
  have b2: "process_receipt (demo_w3 (Inr (address demo_root)) 1002000000000000000 1
      (Inl (RpcError ''abi mismatch''))) h (demo_rcpt 1) = Inl (RpcError ''abi mismatch'')" for h
    by (simp add: demo_w3_simps)
  show ?thesis
    using undecodable_profit_is_no_go [where goldstem = demo_goldstem,
            OF demo_submit_pair [of 0 1002000000000000000 1 "Inr []" "[]"]
               disjI2 [OF disjI1 [OF b1]] a]
          undecodable_profit_is_no_go [where goldstem = demo_goldstem,
            OF demo_submit_pair [of 0 1002000000000000000 1 "Inl (RpcError ''abi mismatch'')" "[]"]
               disjI1 [OF b2] a]
          demo_submit [of 0 1002000000000000000 1 "Inr []" "[]"]
    by blast
qed

text \<open>
  Claim C6 says that a reverted flash transaction triggers neither profit decoding nor
  routing. The code never reads the receipt status: with a receipt of status 0 the
  decoding is still performed, and with a threshold of \<open>- 1\<close> the routing fires too.
\<close>

theorem reverted_receipt_counterexample:
  "status (demo_rcpt 0) = 0
   \<and> snd (flash_submit no_upper (demo_cfg 0)
           (demo_w3 (Inr (address demo_root)) 1002000000000000000 0 (Inr []))
           demo_seed demo_root demo_executor []) = Inr (Some (demo_rcpt 0))
   \<and> Process_receipt (demo_rcpt 0) \<in> set (fst (flashloan_and_arb no_upper (demo_cfg 0)
           (demo_w3 (Inr (address demo_root)) 1002000000000000000 0 (Inr []))
           demo_seed demo_root demo_executor demo_goldstem []))
   \<and> routing_count (fst (flashloan_and_arb no_upper (demo_cfg (- 1))
           (demo_w3 (Inr (address demo_root)) 1002000000000000000 0 (Inr []))
           demo_seed demo_root demo_executor demo_goldstem [])) = 1"
proof -
  let ?w = "demo_w3 (Inr (address demo_root)) 1002000000000000000 0 (Inr [])"
  have dec: "decode_profit ?w (demo_rcpt 0) tr1 = (tr1 @ [Process_receipt (demo_rcpt 0)], Inr 0)" for tr1
    by (rule decode_profit_zero) (simp add: demo_w3_simps)
  have r0: "flashloan_and_arb no_upper (demo_cfg 0) ?w demo_seed demo_root demo_executor demo_goldstem [] =
      (fst (flash_submit no_upper (demo_cfg 0) ?w demo_seed demo_root demo_executor [])
         @ [Process_receipt (demo_rcpt 0)], Inr ())"
    by (simp add: flashloan_after_receipt [OF demo_submit_pair] flash_settle_eq [OF dec]
        demo_cfg_simps)
  let ?t = "fst (flash_submit no_upper (demo_cfg (- 1)) ?w demo_seed demo_root demo_executor [])"
  have r1: "flashloan_and_arb no_upper (demo_cfg (- 1)) ?w demo_seed demo_root demo_executor demo_goldstem [] =
      split_via_goldstem ?w (Decimal 1 (- 5)) demo_root demo_goldstem
        (?t @ [Process_receipt (demo_rcpt 0)])"
    by (simp add: flashloan_after_receipt [OF demo_submit_pair] flash_settle_eq [OF dec]
        demo_cfg_simps)
  have "routing_count ?t = routing_count []"
    by (rule emits_routing_count [OF flash_submit_quiet])
  then have c: "routing_count (fst (flashloan_and_arb no_upper (demo_cfg (- 1)) ?w demo_seed demo_root
      demo_executor demo_goldstem [])) = 1"
    by (simp add: r1 split_via_goldstem_routing) (simp add: routing_count_def not_routing)
  show ?thesis
    using c by (simp add: r0 demo_submit demo_rcpt_def)
qed

text \<open>
  Claim C6, amended. When the flash transaction is mined but reverted, the receipt is
  still decoded; the routing action is taken exactly when the decoded profit exceeds
  the threshold. A receipt without events decodes to profit 0, so with a non-negative
  threshold the run ends after the decoding, without routing.
\<close>

theorem reverted_receipt_still_decoded:
  assumes sub: "flash_submit keccak cfg w3 seed_account root_account executor tr =
                  (tr1, Inr (Some rcpt))"
    and rev: "status rcpt \<noteq> 1"
  shows "\<exists>profit. decode_profit w3 rcpt tr1 = (tr1 @ [Process_receipt rcpt], Inr profit)
     \<and> flashloan_and_arb keccak cfg w3 seed_account root_account executor goldstem tr =
         (if profit > MIN_PROFIT_WEI cfg
          then split_via_goldstem w3 (Decimal 1 (- 5)) root_account goldstem
                 (tr1 @ [Process_receipt rcpt])
          else (tr1 @ [Process_receipt rcpt], Inr ()))
     \<and> (process_receipt w3 tr1 rcpt = Inr [] \<longrightarrow> profit = 0)
     \<and> (process_receipt w3 tr1 rcpt = Inr [] \<and> 0 \<le> MIN_PROFIT_WEI cfg \<longrightarrow>
          flashloan_and_arb keccak cfg w3 seed_account root_account executor goldstem tr =
            (tr1 @ [Process_receipt rcpt], Inr ()))"
proof -
  obtain profit where dec: "decode_profit w3 rcpt tr1 = (tr1 @ [Process_receipt rcpt], Inr profit)"
    using decode_profit_total by blast
  have run: "flashloan_and_arb keccak cfg w3 seed_account root_account executor goldstem tr =
         (if profit > MIN_PROFIT_WEI cfg
          then split_via_goldstem w3 (Decimal 1 (- 5)) root_account goldstem
                 (tr1 @ [Process_receipt rcpt])
          else (tr1 @ [Process_receipt rcpt], Inr ()))"
    by (simp only: flashloan_after_receipt [OF sub] flash_settle_eq [OF dec])
  have zero: "process_receipt w3 tr1 rcpt = Inr [] \<longrightarrow> profit = 0"
    using dec decode_profit_zero [of w3 tr1 rcpt] by auto
  then have quiet: "process_receipt w3 tr1 rcpt = Inr [] \<and> 0 \<le> MIN_PROFIT_WEI cfg \<longrightarrow>
          flashloan_and_arb keccak cfg w3 seed_account root_account executor goldstem tr =
            (tr1 @ [Process_receipt rcpt], Inr ())"
    using run by auto
  show ?thesis using dec run zero quiet by blast
qed

theorem reverted_receipt_still_decoded_witness:
  "status (demo_rcpt 0) \<noteq> 1
   \<and> (\<exists>tr1. flashloan_and_arb no_upper (demo_cfg 0)
           (demo_w3 (Inr (address demo_root)) 1002000000000000000 0 (Inr []))
           demo_seed demo_root demo_executor demo_goldstem [] =
         (tr1 @ [Process_receipt (demo_rcpt 0)], Inr ()))"
proof -
  have s: "status (demo_rcpt 0) \<noteq> 1" by (simp add: demo_rcpt_def)
  have e: "process_receipt (demo_w3 (Inr (address demo_root)) 1002000000000000000 0 (Inr [])) h
      (demo_rcpt 0) = Inr []" for h
    by (simp add: demo_w3_simps)
  show ?thesis
    using reverted_receipt_still_decoded [where goldstem = demo_goldstem,
            OF demo_submit_pair [of 0 1002000000000000000 0 "Inr []" "[]"] s] s e
    by (auto simp: demo_cfg_simps)
qed

text \<open>
  Claim C10. When the routing action fires, it is \<^verbatim>\<open>split_via_goldstem\<close> with the
  constant \<open>0.00001\<close> ether, that is \<open>10 ^ 13\<close> wei: every transaction estimated or signed
  after it goes from the operating account to the treasury contract with that value,
  whatever the decoded profit. When the run ends without an exception, exactly one
  transaction has been signed and broadcast after the routing began: it carries
  \<open>10 ^ 13\<close> wei from the operating account to the treasury contract, and the bytes
  broadcast are the signer's answer for it. Also in a run that ends with an exception,
  whatever was broadcast after the routing began is the signer's answer for such a
  transaction.
\<close>

theorem routing_amount_is_constant:
  assumes sub: "flash_submit keccak cfg w3 seed_account root_account executor tr =
                  (tr1, Inr (Some rcpt))"
    and dec: "decode_profit w3 rcpt tr1 = (tr2, Inr profit)"
    and go: "profit > MIN_PROFIT_WEI cfg"
  shows "to_wei_ether (Decimal 1 (- 5)) = Inr 10000000000000
    \<and> (\<exists>sfx. fst (flashloan_and_arb keccak cfg w3 seed_account root_account executor goldstem tr) =
               tr2 @ Split_via_goldstem (Decimal 1 (- 5)) # sfx
         \<and> list_all (transfers (address root_account) (contract_address goldstem) 10000000000000) sfx
         \<and> (snd (flashloan_and_arb keccak cfg w3 seed_account root_account executor goldstem tr) =
               Inr () \<longrightarrow>
             (\<exists>est tx3 raw txh.
                sfx = [Get_transaction_count (address root_account), Get_chain_id,
                       Get_max_priority_fee, Get_block_latest, Get_gas_price, Estimate_gas est,
                       Sign_transaction tx3 (key root_account), Send_raw_transaction raw,
                       Wait_for_transaction_receipt txh]
                \<and> sign_transaction w3
                     (tr2 @ Split_via_goldstem (Decimal 1 (- 5)) #
                        [Get_transaction_count (address root_account), Get_chain_id,
                         Get_max_priority_fee, Get_block_latest, Get_gas_price, Estimate_gas est])
                     tx3 (key root_account) = Inr raw
                \<and> map_of tx3 ''to'' = Some (VStr (contract_address goldstem))
                \<and> map_of tx3 ''value'' = Some (VInt 10000000000000)
                \<and> map_of tx3 ''from'' = Some (VStr (address root_account))))
         \<and> (\<forall>raw. Send_raw_transaction raw \<in> set sfx \<longrightarrow>
             (\<exists>est tx3.
                Sign_transaction tx3 (key root_account) \<in> set sfx
                \<and> sign_transaction w3
                     (tr2 @ Split_via_goldstem (Decimal 1 (- 5)) #
                        [Get_transaction_count (address root_account), Get_chain_id,
                         Get_max_priority_fee, Get_block_latest, Get_gas_price, Estimate_gas est])
                     tx3 (key root_account) = Inr raw
                \<and> map_of tx3 ''to'' = Some (VStr (contract_address goldstem))
                \<and> map_of tx3 ''value'' = Some (VInt 10000000000000)
                \<and> map_of tx3 ''from'' = Some (VStr (address root_account)))))"
proof -
  have run: "flashloan_and_arb keccak cfg w3 seed_account root_account executor goldstem tr =
     split_via_goldstem w3 (Decimal 1 (- 5)) root_account goldstem tr2"
    using go by (simp add: flashloan_after_receipt [OF sub] flash_settle_eq [OF dec])
  obtain sfx where sfx:
    "fst (split_via_goldstem w3 (Decimal 1 (- 5)) root_account goldstem tr2) =
       tr2 @ Split_via_goldstem (Decimal 1 (- 5)) # sfx"
    "list_all (transfers (address root_account) (contract_address goldstem) 10000000000000) sfx"
    using split_via_goldstem_transfers [of w3 root_account goldstem tr2] by blast
  have sent: "\<exists>est tx3 raw txh.
                sfx = [Get_transaction_count (address root_account), Get_chain_id,
                       Get_max_priority_fee, Get_block_latest, Get_gas_price, Estimate_gas est,
                       Sign_transaction tx3 (key root_account), Send_raw_transaction raw,
                       Wait_for_transaction_receipt txh]
                \<and> sign_transaction w3
                     (tr2 @ Split_via_goldstem (Decimal 1 (- 5)) #
                        [Get_transaction_count (address root_account), Get_chain_id,
                         Get_max_priority_fee, Get_block_latest, Get_gas_price, Estimate_gas est])
                     tx3 (key root_account) = Inr raw
                \<and> map_of tx3 ''to'' = Some (VStr (contract_address goldstem))
                \<and> map_of tx3 ''value'' = Some (VInt 10000000000000)
                \<and> map_of tx3 ''from'' = Some (VStr (address root_account))"
    if ok: "snd (split_via_goldstem w3 (Decimal 1 (- 5)) root_account goldstem tr2) = Inr ()"
    using split_via_goldstem_returns [OF ok] sfx(1) by auto
  have bc: "\<forall>raw. Send_raw_transaction raw \<in> set sfx \<longrightarrow>
             (\<exists>est tx3.
                Sign_transaction tx3 (key root_account) \<in> set sfx
                \<and> sign_transaction w3
                     (tr2 @ Split_via_goldstem (Decimal 1 (- 5)) #
                        [Get_transaction_count (address root_account), Get_chain_id,
                         Get_max_priority_fee, Get_block_latest, Get_gas_price, Estimate_gas est])
                     tx3 (key root_account) = Inr raw
                \<and> map_of tx3 ''to'' = Some (VStr (contract_address goldstem))
                \<and> map_of tx3 ''value'' = Some (VInt 10000000000000)
                \<and> map_of tx3 ''from'' = Some (VStr (address root_account)))"
    using split_via_goldstem_broadcast [OF sfx(1)] by blast
  have "fst (split_via_goldstem w3 (Decimal 1 (- 5)) root_account goldstem tr2) =
               tr2 @ Split_via_goldstem (Decimal 1 (- 5)) # sfx
         \<and> list_all (transfers (address root_account) (contract_address goldstem) 10000000000000) sfx
         \<and> (snd (split_via_goldstem w3 (Decimal 1 (- 5)) root_account goldstem tr2) = Inr () \<longrightarrow>
             (\<exists>est tx3 raw txh.
                sfx = [Get_transaction_count (address root_account), Get_chain_id,
                       Get_max_priority_fee, Get_block_latest, Get_gas_price, Estimate_gas est,
                       Sign_transaction tx3 (key root_account), Send_raw_transaction raw,
                       Wait_for_transaction_receipt txh]
                \<and> sign_transaction w3
                     (tr2 @ Split_via_goldstem (Decimal 1 (- 5)) #
                        [Get_transaction_count (address root_account), Get_chain_id,
                         Get_max_priority_fee, Get_block_latest, Get_gas_price, Estimate_gas est])
                     tx3 (key root_account) = Inr raw
                \<and> map_of tx3 ''to'' = Some (VStr (contract_address goldstem))
                \<and> map_of tx3 ''value'' = Some (VInt 10000000000000)
                \<and> map_of tx3 ''from'' = Some (VStr (address root_account))))
         \<and> (\<forall>raw. Send_raw_transaction raw \<in> set sfx \<longrightarrow>
             (\<exists>est tx3.
                Sign_transaction tx3 (key root_account) \<in> set sfx
                \<and> sign_transaction w3
                     (tr2 @ Split_via_goldstem (Decimal 1 (- 5)) #
                        [Get_transaction_count (address root_account), Get_chain_id,
                         Get_max_priority_fee, Get_block_latest, Get_gas_price, Estimate_gas est])
                     tx3 (key root_account) = Inr raw
                \<and> map_of tx3 ''to'' = Some (VStr (contract_address goldstem))
                \<and> map_of tx3 ''value'' = Some (VInt 10000000000000)
                \<and> map_of tx3 ''from'' = Some (VStr (address root_account))))"
    using sfx sent bc by blast
  then show ?thesis
    unfolding run using to_wei_dust by blast
qed

theorem routing_amount_is_constant_witness:
  "(\<exists>tr2 est tx3 raw txh.
     flashloan_and_arb no_upper (demo_cfg 400)
       (demo_w3 (Inr (address demo_root)) 1002000000000000000 1 (Inr [[(''profitWei'', 500)]]))
       demo_seed demo_root demo_executor demo_goldstem [] =
         (tr2 @ Split_via_goldstem (Decimal 1 (- 5)) #
            [Get_transaction_count (address demo_root), Get_chain_id, Get_max_priority_fee,
             Get_block_latest, Get_gas_price, Estimate_gas est,
             Sign_transaction tx3 (key demo_root), Send_raw_transaction raw,
             Wait_for_transaction_receipt txh], Inr ())
     \<and> map_of tx3 ''to'' = Some (VStr (contract_address demo_goldstem))
     \<and> map_of tx3 ''value'' = Some (VInt 10000000000000)
     \<and> map_of tx3 ''from'' = Some (VStr (address demo_root)))
   \<and> (\<exists>tr2 est tx3 raw txh.
     flashloan_and_arb no_upper (demo_cfg 400)
       (demo_w3 (Inr (address demo_root)) 1002000000000000000 1
          (Inr [[(''profitWei'', 900000000000000000)]]))
       demo_seed demo_root demo_executor demo_goldstem [] =
         (tr2 @ Split_via_goldstem (Decimal 1 (- 5)) #
            [Get_transaction_count (address demo_root), Get_chain_id, Get_max_priority_fee,
             Get_block_latest, Get_gas_price, Estimate_gas est,
             Sign_transaction tx3 (key demo_root), Send_raw_transaction raw,
             Wait_for_transaction_receipt txh], Inr ())
     \<and> map_of tx3 ''to'' = Some (VStr (contract_address demo_goldstem))
     \<and> map_of tx3 ''value'' = Some (VInt 10000000000000)
     \<and> map_of tx3 ''from'' = Some (VStr (address demo_root)))"
proof -
  have g1: "500 > MIN_PROFIT_WEI (demo_cfg 400)" and g2: "900000000000000000 > MIN_PROFIT_WEI (demo_cfg 400)"
    by (simp_all add: demo_cfg_simps)
  have ok: "snd (flashloan_and_arb no_upper (demo_cfg 400)
       (demo_w3 (Inr (address demo_root)) 1002000000000000000 1 (Inr [[(''profitWei'', p)]]))
       demo_seed demo_root demo_executor demo_goldstem []) = Inr ()"
    if "p > 400" for p
    using that
    by (simp add: flashloan_after_receipt [OF demo_submit_pair] flash_settle_eq [OF demo_decode]
        demo_cfg_simps split_via_goldstem_unfold to_wei_dust and_then_lift
        demo_and_then_send_tx returns_def)
  show ?thesis
    using routing_amount_is_constant [where goldstem = demo_goldstem,
            OF demo_submit_pair [of 400 1002000000000000000 1 "Inr [[(''profitWei'', 500)]]" "[]"]
               demo_decode g1]
          routing_amount_is_constant [where goldstem = demo_goldstem,
            OF demo_submit_pair
                 [of 400 1002000000000000000 1 "Inr [[(''profitWei'', 900000000000000000)]]" "[]"]
               demo_decode g2]
          ok [of 500] ok [of 900000000000000000]
    by (auto simp: prod_eq_iff)
qed

end
